theory Spec2Isabelle
  imports Main "HOL-Library.Sublist" "HOL-Library.AList"
begin

section \<open>Python values\<close>

text \<open>
  Every value the handler of \<^verbatim>\<open>src/main.py\<close> touches after the request has been parsed
  comes out of \<^verbatim>\<open>json.loads\<close> or \<^verbatim>\<open>response.json()\<close>, so the Python values are the
  JSON values: \<^verbatim>\<open>None\<close>, booleans, integers, floats, strings, lists and dicts. A dict
  is an association list in insertion order; lookups read the first binding of a key.
  A float is carried as its \<^verbatim>\<open>repr\<close>, which is all the handler can observe of it (its
  truth value and its text). A character stands for one code point.
\<close>

datatype json =
    JNull
  | JBool bool
  | JInt int
  | JFloat string
  | JStr string
  | JArr "json list"
  | JObj "(string \<times> json) list"

text \<open>Python's truth value of an object, as \<^verbatim>\<open>if x:\<close> and \<^verbatim>\<open>x and y\<close> test it.\<close>

fun truthy :: "json \<Rightarrow> bool" where
  "truthy JNull = False"
| "truthy (JBool b) = b"
| "truthy (JInt i) = (i \<noteq> 0)"
| "truthy (JFloat r) = (r \<noteq> ''0.0'' \<and> r \<noteq> ''-0.0'')"
| "truthy (JStr s) = (s \<noteq> [])"
| "truthy (JArr xs) = (xs \<noteq> [])"
| "truthy (JObj kvs) = (kvs \<noteq> [])"

text \<open>
  The exceptions of a run. An \<^verbatim>\<open>HTTPException\<close> carries its status code and, in place
  of the detail text, the constructor of that text with the exception it formats.
\<close>

datatype exn =
    TypeError
  | AttributeError
  | IndexError
  | KeyError
  | JSONDecodeError
  | ValidationError
  | APIError
  | RequestException
  | HTTPError nat
  | HTTPException nat detail
and detail =
    GoogleScriptError json
  | SubmissionFailed exn
  | ProcessingError exn

text \<open>\<^verbatim>\<open>d.get(k, default)\<close>: only a dict has the method.\<close>

definition py_get :: "json \<Rightarrow> string \<Rightarrow> json \<Rightarrow> exn + json" where
  "py_get d k dflt =
     (case d of
        JObj kvs \<Rightarrow> Inr (case map_of kvs k of None \<Rightarrow> dflt | Some v \<Rightarrow> v)
      | _ \<Rightarrow> Inl AttributeError)"

section \<open>String operations\<close>

text \<open>\<^verbatim>\<open>sub in s\<close> on strings.\<close>

fun contains :: "string \<Rightarrow> string \<Rightarrow> bool" where
  "contains sub [] = (sub = [])"
| "contains sub (x # xs) = (prefix sub (x # xs) \<or> contains sub xs)"

text \<open>
  \<^verbatim>\<open>s.split(sep)\<close> for a non-empty separator: the pieces between the leftmost,
  non-overlapping occurrences of \<open>sep\<close>.
\<close>

function split_str :: "string \<Rightarrow> string \<Rightarrow> string list" where
  "split_str sep [] = [[]]"
| "split_str sep (x # xs) =
     (if sep \<noteq> [] \<and> prefix sep (x # xs)
      then [] # split_str sep (drop (length sep) (x # xs))
      else (case split_str sep xs of
              p # ps \<Rightarrow> (x # p) # ps
            | [] \<Rightarrow> [[x]]))"
  by pat_completeness auto
termination
  by (relation "measure (\<lambda>(sep, s). length s)") (auto simp: neq_Nil_conv)

text \<open>\<^verbatim>\<open>str.isspace\<close> on the code points below 256, and \<^verbatim>\<open>s.strip()\<close>.\<close>

definition is_space :: "char \<Rightarrow> bool" where
  "is_space c =
     (let n = (of_char c :: nat)
      in (9 \<le> n \<and> n \<le> 13) \<or> (28 \<le> n \<and> n \<le> 32) \<or> n = 133 \<or> n = 160)"

definition py_strip :: "string \<Rightarrow> string" where
  "py_strip s = rev (dropWhile is_space (rev (dropWhile is_space s)))"

section \<open>Collaborators\<close>

record payload =
  action :: string
  photo1Base64 :: string
  photo2Base64 :: string
  extractedData :: "(string \<times> json) list"

text \<open>
  The outbound calls of a run. A chat call carries the data its prompt interpolates
  (the instruction text around it is constant): the image URLs of the extraction call,
  the OCR data and the search results of the validation call, the validated data and
  the enrichment results of the merge call. A search carries \<open>q\<close> and \<open>num\<close>, the
  submission its payload.
\<close>

datatype call =
    ChatExtraction "string list"
  | ChatValidation json json
  | ChatMerge json json
  | GoogleSearch json nat
  | AppsScriptPost payload

record http_response =
  status_code :: nat
  json_body :: "json option"

datatype 'a outcome = Raises | Returns 'a

text \<open>
  What lies outside the handler: the configuration, the three services and the library
  functions whose results the handler only passes on. A service answers a call knowing
  the calls made before it, so two equal calls of one run may be answered differently;
  it either returns or raises an exception of its client library (\<open>Raises\<close>).
  \<open>json_body\<close> is the result of \<^verbatim>\<open>response.json()\<close>, \<open>None\<close> when it raises;
  \<open>json_loads\<close> is \<^verbatim>\<open>json.loads\<close>, \<open>None\<close> when it raises; \<open>py_repr\<close> is \<^verbatim>\<open>str()\<close> of a
  number, list or dict; \<open>coerce_str\<close> and \<open>coerce_bool\<close> are pydantic's validation of a
  value that is not already of the field's type (\<open>None\<close> when it rejects the value).
\<close>

record world =
  google_configured :: bool
  chat_completions_create :: "call list \<Rightarrow> call \<Rightarrow> string option outcome"
  requests_get :: "call list \<Rightarrow> call \<Rightarrow> http_response outcome"
  requests_post :: "call list \<Rightarrow> call \<Rightarrow> http_response outcome"
  json_loads :: "string \<Rightarrow> json option"
  py_repr :: "json \<Rightarrow> string"
  coerce_str :: "json \<Rightarrow> string option"
  coerce_bool :: "json \<Rightarrow> bool option"

text \<open>\<^verbatim>\<open>str(v)\<close>, as an f-string formats a value.\<close>

definition py_str :: "world \<Rightarrow> json \<Rightarrow> string" where
  "py_str w v =
     (case v of
        JStr s \<Rightarrow> s
      | JNull \<Rightarrow> ''None''
      | JBool b \<Rightarrow> (if b then ''True'' else ''False'')
      | _ \<Rightarrow> py_repr w v)"

text \<open>\<^verbatim>\<open>response.raise_for_status()\<close> raises for the client and server error codes.\<close>

definition raise_for_status :: "http_response \<Rightarrow> exn + unit" where
  "raise_for_status r =
     (if 400 \<le> status_code r \<and> status_code r < 600 then Inl (HTTPError (status_code r))
      else Inr ())"

text \<open>\<^verbatim>\<open>json.loads(content)\<close> on the content of a chat reply, which may be \<^verbatim>\<open>None\<close>.\<close>

definition loads :: "world \<Rightarrow> string option \<Rightarrow> exn + json" where
  "loads w content =
     (case content of
        None \<Rightarrow> Inl TypeError
      | Some s \<Rightarrow> (case json_loads w s of None \<Rightarrow> Inl JSONDecodeError | Some v \<Rightarrow> Inr v))"

section \<open>Request and response models\<close>

record OCRRequest =
  base64Image1 :: string
  base64Image2 :: "string option"

record OCRResponse =
  company :: string
  name :: string
  title :: string
  phone :: string
  email :: string
  address :: string
  website :: string
  validation_source :: string
  is_validated :: bool
  about_the_company :: string
  location :: string

text \<open>
  \<^verbatim>\<open>OCRResponse(**final_data)\<close>: a field whose key is missing takes its default, a value
  of the field's type is taken as it is, any other value goes through pydantic's
  coercion, and keys that name no field are ignored. One rejected value fails the
  construction with a \<^verbatim>\<open>ValidationError\<close>.
\<close>

definition validate_str :: "world \<Rightarrow> (string \<times> json) list \<Rightarrow> string \<Rightarrow> string option" where
  "validate_str w d k =
     (case map_of d k of
        None \<Rightarrow> Some []
      | Some (JStr s) \<Rightarrow> Some s
      | Some v \<Rightarrow> coerce_str w v)"

definition validate_bool :: "world \<Rightarrow> (string \<times> json) list \<Rightarrow> string \<Rightarrow> bool option" where
  "validate_bool w d k =
     (case map_of d k of
        None \<Rightarrow> Some False
      | Some (JBool b) \<Rightarrow> Some b
      | Some v \<Rightarrow> coerce_bool w v)"

definition str_fields :: "string list" where
  "str_fields = [''company'', ''name'', ''title'', ''phone'', ''email'', ''address'',
     ''website'', ''validation_source'', ''about_the_company'', ''location'']"

definition OCRResponse_of :: "world \<Rightarrow> (string \<times> json) list \<Rightarrow> exn + OCRResponse" where
  "OCRResponse_of w d =
     (case (map (validate_str w d) str_fields, validate_bool w d ''is_validated'') of
        ([Some c, Some n, Some t, Some p, Some e, Some a, Some ws, Some vs, Some ab, Some l],
         Some iv) \<Rightarrow>
          Inr \<lparr>company = c, name = n, title = t, phone = p, email = e, address = a,
               website = ws, validation_source = vs, is_validated = iv,
               about_the_company = ab, location = l\<rparr>
      | _ \<Rightarrow> Inl ValidationError)"

text \<open>
  The response body FastAPI serialises from the returned model (\<^verbatim>\<open>response_model=OCRResponse\<close>):
  one key per declared field, in declaration order.
\<close>

definition response_json :: "OCRResponse \<Rightarrow> (string \<times> json) list" where
  "response_json r =
     [(''company'', JStr (company r)), (''name'', JStr (name r)), (''title'', JStr (title r)),
      (''phone'', JStr (phone r)), (''email'', JStr (email r)), (''address'', JStr (address r)),
      (''website'', JStr (website r)), (''validation_source'', JStr (validation_source r)),
      (''is_validated'', JBool (is_validated r)),
      (''about_the_company'', JStr (about_the_company r)), (''location'', JStr (location r))]"

section \<open>search_google\<close>

text \<open>
  The membership test, the subscript and \<^verbatim>\<open>len\<close> that \<^verbatim>\<open>search_google\<close> applies to whatever
  \<^verbatim>\<open>response.json()\<close> returned: each raises a \<^verbatim>\<open>TypeError\<close> on the types that lack it.
\<close>

definition py_in :: "string \<Rightarrow> json \<Rightarrow> exn + bool" where
  "py_in k v =
     (case v of
        JObj kvs \<Rightarrow> Inr (map_of kvs k \<noteq> None)
      | JArr xs \<Rightarrow> Inr (JStr k \<in> set xs)
      | JStr s \<Rightarrow> Inr (contains k s)
      | _ \<Rightarrow> Inl TypeError)"

definition py_getitem :: "json \<Rightarrow> string \<Rightarrow> exn + json" where
  "py_getitem v k =
     (case v of
        JObj kvs \<Rightarrow> (case map_of kvs k of None \<Rightarrow> Inl KeyError | Some x \<Rightarrow> Inr x)
      | _ \<Rightarrow> Inl TypeError)"

definition py_len :: "json \<Rightarrow> exn + nat" where
  "py_len v =
     (case v of
        JObj kvs \<Rightarrow> Inr (length kvs)
      | JArr xs \<Rightarrow> Inr (length xs)
      | JStr s \<Rightarrow> Inr (length s)
      | _ \<Rightarrow> Inl TypeError)"

text \<open>The body of the \<^verbatim>\<open>try\<close> block (lines 69 to 79), after the request has been sent.\<close>

definition search_items :: "http_response outcome \<Rightarrow> exn + json" where
  "search_items got =
     (case got of
        Raises \<Rightarrow> Inl RequestException
      | Returns response \<Rightarrow>
          (case raise_for_status response of
             Inl e \<Rightarrow> Inl e
           | Inr _ \<Rightarrow>
               (case json_body response of
                  None \<Rightarrow> Inl JSONDecodeError
                | Some results \<Rightarrow>
                    (case py_in ''items'' results of
                       Inl e \<Rightarrow> Inl e
                     | Inr False \<Rightarrow> Inr JNull
                     | Inr True \<Rightarrow>
                         (case py_getitem results ''items'' of
                            Inl e \<Rightarrow> Inl e
                          | Inr items \<Rightarrow>
                              (case py_len items of
                                 Inl e \<Rightarrow> Inl e
                               | Inr n \<Rightarrow> if n > 0 then Inr items else Inr JNull))))))"

text \<open>
  \<^verbatim>\<open>search_google(query, num_results)\<close>: the calls made so far go in, the calls made so
  far and the returned value (\<open>JNull\<close> for \<^verbatim>\<open>None\<close>) come out. Without credentials no
  request is sent; any exception of the \<^verbatim>\<open>try\<close> block is caught and turned into \<^verbatim>\<open>None\<close>.
\<close>

definition search_google :: "world \<Rightarrow> call list \<Rightarrow> json \<Rightarrow> nat \<Rightarrow> call list \<times> json" where
  "search_google w tr query num_results =
     (if \<not> google_configured w then (tr, JNull)
      else
        (let c = GoogleSearch query num_results
         in (tr @ [c],
             case search_items (requests_get w tr c) of
               Inl e \<Rightarrow> JNull
             | Inr r \<Rightarrow> r)))"

section \<open>parse_openai_json\<close>

definition fence_json :: string where
  "fence_json = ''```json''"

definition fence :: string where
  "fence = ''```''"

definition parse_openai_json :: "world \<Rightarrow> string option \<Rightarrow> exn + json" where
  "parse_openai_json w response_content =
     (case response_content of
        None \<Rightarrow> Inl TypeError
      | Some c \<Rightarrow>
          (if contains fence_json c
           then (case split_str fence_json c of
                   _ # inner # _ \<Rightarrow>
                     (case split_str fence inner of
                        body # _ \<Rightarrow> loads w (Some (py_strip body))
                      | [] \<Rightarrow> Inl IndexError)
                 | _ \<Rightarrow> Inl IndexError)
           else loads w (Some c)))"

section \<open>perform_ocr\<close>

subsection \<open>Input normalisation (lines 110 to 121)\<close>

definition comma :: string where
  "comma = '',''"

definition normalize_image1 :: "string \<Rightarrow> exn + string" where
  "normalize_image1 base64_image1 =
     (if contains comma base64_image1
      then (case split_str comma base64_image1 of
              _ # p # _ \<Rightarrow> Inr p
            | _ \<Rightarrow> Inl IndexError)
      else Inr base64_image1)"

definition normalize_image2 :: "string option \<Rightarrow> exn + string" where
  "normalize_image2 base64_image2 =
     (case base64_image2 of
        None \<Rightarrow> Inr []
      | Some b \<Rightarrow>
          (if b \<noteq> []
           then (if contains comma b
                 then (case split_str comma b of
                         _ # p # _ \<Rightarrow> Inr p
                       | _ \<Rightarrow> Inl IndexError)
                 else Inr b)
           else Inr []))"

subsection \<open>Step 1: extraction (lines 123 to 147)\<close>

definition data_url :: "string \<Rightarrow> string" where
  "data_url b = ''data:image/jpeg;base64,'' @ b"

definition extraction :: "world \<Rightarrow> call list \<Rightarrow> string \<Rightarrow> string \<Rightarrow> call list \<times> (exn + json)" where
  "extraction w tr base64_image1 base64_image2_cleaned =
     (let image_list_content =
            [data_url base64_image1] @
            (if base64_image2_cleaned \<noteq> [] then [data_url base64_image2_cleaned] else []);
          c = ChatExtraction image_list_content
      in (tr @ [c],
          case chat_completions_create w tr c of
            Raises \<Rightarrow> Inl APIError
          | Returns ocr_data_str \<Rightarrow> parse_openai_json w ocr_data_str))"

subsection \<open>Step 2: the validation search (lines 150 to 167)\<close>

text \<open>
  The query is a Python value: an f-string where two fields are joined, the field's own
  value where it stands alone, the empty string where none is present.
\<close>

definition build_search_query :: "world \<Rightarrow> json \<Rightarrow> exn + json" where
  "build_search_query w ocr_data =
     (case py_get ocr_data ''company'' (JStr []) of
        Inl e \<Rightarrow> Inl e
      | Inr company_v \<Rightarrow>
     (case py_get ocr_data ''name'' (JStr []) of
        Inl e \<Rightarrow> Inl e
      | Inr name_v \<Rightarrow>
     (case py_get ocr_data ''slogan'' (JStr []) of
        Inl e \<Rightarrow> Inl e
      | Inr slogan_v \<Rightarrow>
          Inr (if truthy company_v \<and> truthy slogan_v
                 then JStr (py_str w company_v @ '' '' @ py_str w slogan_v)
               else if truthy company_v \<and> truthy name_v
                 then JStr (py_str w name_v @ '' '' @ py_str w company_v)
               else if truthy company_v then company_v
               else if truthy slogan_v then slogan_v
               else if truthy name_v then name_v
               else JStr []))))"

definition validation_search :: "world \<Rightarrow> call list \<Rightarrow> json \<Rightarrow> call list \<times> json" where
  "validation_search w tr search_query =
     (if truthy search_query then search_google w tr search_query 3 else (tr, JNull))"

subsection \<open>Step 3: validation (lines 169 to 196)\<close>

definition validation :: "world \<Rightarrow> call list \<Rightarrow> json \<Rightarrow> json \<Rightarrow> call list \<times> (exn + json)" where
  "validation w tr ocr_data google_results_list =
     (let c = ChatValidation ocr_data google_results_list
      in (tr @ [c],
          case chat_completions_create w tr c of
            Raises \<Rightarrow> Inl APIError
          | Returns validated_data_str \<Rightarrow> loads w validated_data_str))"

subsection \<open>Step 4: the enrichment search (lines 198 to 208)\<close>

definition contact_query :: "world \<Rightarrow> json \<Rightarrow> string" where
  "contact_query w validated_company =
     [CHR 0x22] @ py_str w validated_company @ [CHR 0x22] @
     '' about description location contact info email phone address''"

definition enrichment_search :: "world \<Rightarrow> call list \<Rightarrow> json \<Rightarrow> call list \<times> (exn + json)" where
  "enrichment_search w tr validated_data =
     (case py_get validated_data ''is_validated'' JNull of
        Inl e \<Rightarrow> (tr, Inl e)
      | Inr iv \<Rightarrow>
          (if truthy iv
           then (case py_get validated_data ''company'' JNull of
                   Inl e \<Rightarrow> (tr, Inl e)
                 | Inr validated_company \<Rightarrow>
                     (case search_google w tr (JStr (contact_query w validated_company)) 3 of
                        (tr', enrichment_search_results) \<Rightarrow> (tr', Inr enrichment_search_results)))
           else (tr, Inr JNull)))"

subsection \<open>Step 5: the final merge (lines 210 to 250)\<close>

definition final_merge :: "world \<Rightarrow> call list \<Rightarrow> json \<Rightarrow> json \<Rightarrow> call list \<times> (exn + json)" where
  "final_merge w tr validated_data enrichment_search_results =
     (if truthy enrichment_search_results
      then (let c = ChatMerge validated_data enrichment_search_results
            in (tr @ [c],
                case chat_completions_create w tr c of
                  Raises \<Rightarrow> Inl APIError
                | Returns final_data_str \<Rightarrow> loads w final_data_str))
      else (tr, Inr validated_data))"

subsection \<open>Finalisation (lines 252 to 256)\<close>

text \<open>
  The phone rule: \<^verbatim>\<open>startswith\<close> is reached only for a truthy value, and only a string
  has the method. The assignment rebinds the key where it stands.
\<close>

definition escape_phone :: "json \<Rightarrow> exn + (string \<times> json) list" where
  "escape_phone final_data =
     (case final_data of
        JObj d \<Rightarrow>
          (case (case map_of d ''phone'' of None \<Rightarrow> JStr [] | Some v \<Rightarrow> v) of
             JStr phone_number \<Rightarrow>
               (if phone_number \<noteq> [] \<and> prefix ''+'' phone_number
                then Inr (AList.update ''phone'' (JStr ([CHR 0x27] @ phone_number)) d)
                else Inr d)
           | v \<Rightarrow> (if truthy v then Inl AttributeError else Inr d))
      | _ \<Rightarrow> Inl AttributeError)"

definition remove_slogan :: "(string \<times> json) list \<Rightarrow> (string \<times> json) list" where
  "remove_slogan d = (if map_of d ''slogan'' \<noteq> None then AList.delete ''slogan'' d else d)"

definition finalize :: "json \<Rightarrow> exn + (string \<times> json) list" where
  "finalize final_data =
     (case escape_phone final_data of
        Inl e \<Rightarrow> Inl e
      | Inr d \<Rightarrow> Inr (remove_slogan d))"

subsection \<open>Step 6: submission (lines 258 to 284)\<close>

text \<open>The body of the inner \<^verbatim>\<open>try\<close> block, after the request has been sent.\<close>

definition save_result_check :: "http_response outcome \<Rightarrow> exn + unit" where
  "save_result_check posted =
     (case posted of
        Raises \<Rightarrow> Inl RequestException
      | Returns response \<Rightarrow>
          (case raise_for_status response of
             Inl e \<Rightarrow> Inl e
           | Inr _ \<Rightarrow>
               (case json_body response of
                  None \<Rightarrow> Inl JSONDecodeError
                | Some save_result \<Rightarrow>
                    (case py_get save_result ''success'' JNull of
                       Inl e \<Rightarrow> Inl e
                     | Inr ok \<Rightarrow>
                         (if \<not> truthy ok
                          then (case py_get save_result ''message'' JNull of
                                  Inl e \<Rightarrow> Inl e
                                | Inr m \<Rightarrow> Inl (HTTPException 500 (GoogleScriptError m)))
                          else Inr ())))))"

definition submit ::
  "world \<Rightarrow> call list \<Rightarrow> string \<Rightarrow> string \<Rightarrow> (string \<times> json) list \<Rightarrow> call list \<times> (exn + unit)" where
  "submit w tr base64_image1 base64_image2_cleaned final_data =
     (let apps_script_payload =
            \<lparr>action = ''save'',
             photo1Base64 = base64_image1,
             photo2Base64 = (if base64_image2_cleaned \<noteq> [] then base64_image2_cleaned else []),
             extractedData = final_data\<rparr>;
          c = AppsScriptPost apps_script_payload
      in (tr @ [c],
          case save_result_check (requests_post w tr c) of
            Inl e \<Rightarrow> Inl (HTTPException 502 (SubmissionFailed e))
          | Inr u \<Rightarrow> Inr u))"

subsection \<open>The handler\<close>

text \<open>Lines 252 to 286: finalisation, submission and the response.\<close>

definition finish ::
  "world \<Rightarrow> call list \<Rightarrow> string \<Rightarrow> string \<Rightarrow> json \<Rightarrow> call list \<times> (exn + OCRResponse)" where
  "finish w tr base64_image1 base64_image2_cleaned final_data =
     (case finalize final_data of
        Inl e \<Rightarrow> (tr, Inl e)
      | Inr final_data' \<Rightarrow>
          (case submit w tr base64_image1 base64_image2_cleaned final_data' of
             (tr', Inl e) \<Rightarrow> (tr', Inl e)
           | (tr', Inr _) \<Rightarrow> (tr', OCRResponse_of w final_data')))"

text \<open>Lines 198 to 286: everything after the validation reply has been decoded.\<close>

definition after_validation ::
  "world \<Rightarrow> call list \<Rightarrow> string \<Rightarrow> string \<Rightarrow> json \<Rightarrow> call list \<times> (exn + OCRResponse)" where
  "after_validation w tr base64_image1 base64_image2_cleaned validated_data =
     (case enrichment_search w tr validated_data of
        (tr', Inl e) \<Rightarrow> (tr', Inl e)
      | (tr', Inr enrichment_search_results) \<Rightarrow>
          (case final_merge w tr' validated_data enrichment_search_results of
             (tr'', Inl e) \<Rightarrow> (tr'', Inl e)
           | (tr'', Inr final_data) \<Rightarrow>
               finish w tr'' base64_image1 base64_image2_cleaned final_data))"

text \<open>Lines 150 to 286: everything after the extraction reply has been decoded.\<close>

definition after_extraction ::
  "world \<Rightarrow> call list \<Rightarrow> string \<Rightarrow> string \<Rightarrow> json \<Rightarrow> call list \<times> (exn + OCRResponse)" where
  "after_extraction w tr base64_image1 base64_image2_cleaned ocr_data =
     (case build_search_query w ocr_data of
        Inl e \<Rightarrow> (tr, Inl e)
      | Inr search_query \<Rightarrow>
          (case validation_search w tr search_query of
             (tr', google_results_list) \<Rightarrow>
               (case validation w tr' ocr_data google_results_list of
                  (tr'', Inl e) \<Rightarrow> (tr'', Inl e)
                | (tr'', Inr validated_data) \<Rightarrow>
                    after_validation w tr'' base64_image1 base64_image2_cleaned validated_data)))"

text \<open>The body of the outer \<^verbatim>\<open>try\<close> block (lines 110 to 286).\<close>

definition pipeline :: "world \<Rightarrow> OCRRequest \<Rightarrow> call list \<times> (exn + OCRResponse)" where
  "pipeline w request_data =
     (case normalize_image1 (base64Image1 request_data) of
        Inl e \<Rightarrow> ([], Inl e)
      | Inr base64_image1 \<Rightarrow>
          (case normalize_image2 (base64Image2 request_data) of
             Inl e \<Rightarrow> ([], Inl e)
           | Inr base64_image2_cleaned \<Rightarrow>
               (case extraction w [] base64_image1 base64_image2_cleaned of
                  (tr, Inl e) \<Rightarrow> (tr, Inl e)
                | (tr, Inr ocr_data) \<Rightarrow>
                    after_extraction w tr base64_image1 base64_image2_cleaned ocr_data)))"

text \<open>
  The outer handler (lines 288 to 292): an \<^verbatim>\<open>HTTPException\<close> passes through, any other
  exception becomes an \<^verbatim>\<open>HTTPException\<close> with status 500.
\<close>

definition outer_except :: "exn \<Rightarrow> exn" where
  "outer_except e =
     (case e of
        HTTPException s d \<Rightarrow> HTTPException s d
      | _ \<Rightarrow> HTTPException 500 (ProcessingError e))"

text \<open>
  The endpoint: the calls it made, in order, and either the exception it raised or the
  model it returned.
\<close>

definition perform_ocr :: "world \<Rightarrow> OCRRequest \<Rightarrow> call list \<times> (exn + OCRResponse)" where
  "perform_ocr w request_data =
     (case pipeline w request_data of
        (tr, Inl e) \<Rightarrow> (tr, Inl (outer_except e))
      | (tr, Inr r) \<Rightarrow> (tr, Inr r))"

section \<open>The calls of a run, by kind\<close>

fun is_post :: "call \<Rightarrow> bool" where
  "is_post (AppsScriptPost p) = True"
| "is_post c = False"

fun is_search :: "call \<Rightarrow> bool" where
  "is_search (GoogleSearch q n) = True"
| "is_search c = False"

fun is_merge :: "call \<Rightarrow> bool" where
  "is_merge (ChatMerge v r) = True"
| "is_merge c = False"

text \<open>An exception that the outer handler wraps: anything but an \<^verbatim>\<open>HTTPException\<close>.\<close>

fun plain :: "exn \<Rightarrow> bool" where
  "plain (HTTPException s d) = False"
| "plain e = True"

section \<open>The specification's reading of the search query\<close>

text \<open>
  The precedence of the specification, over the three fields as texts, \<open>None\<close> for a
  field that is missing or empty: company and slogan, else name and company, else
  company, else slogan, else name, else no query.
\<close>

fun spec_search_query :: "string option \<Rightarrow> string option \<Rightarrow> string option \<Rightarrow> string option" where
  "spec_search_query (Some c) n (Some s) = Some (c @ '' '' @ s)"
| "spec_search_query (Some c) (Some n) None = Some (n @ '' '' @ c)"
| "spec_search_query (Some c) None None = Some c"
| "spec_search_query None n (Some s) = Some s"
| "spec_search_query None (Some n) None = Some n"
| "spec_search_query None None None = None"

definition present :: "(string \<times> json) list \<Rightarrow> string \<Rightarrow> string option" where
  "present m k =
     (case map_of m k of
        Some (JStr s) \<Rightarrow> (if s = [] then None else Some s)
      | _ \<Rightarrow> None)"

text \<open>The extraction contract, and a little more: a field is a string or null, or the key
  is missing.\<close>

definition text_or_absent :: "(string \<times> json) list \<Rightarrow> string \<Rightarrow> bool" where
  "text_or_absent m k =
     (case map_of m k of
        None \<Rightarrow> True
      | Some (JStr s) \<Rightarrow> True
      | Some JNull \<Rightarrow> True
      | Some _ \<Rightarrow> False)"

section \<open>Example runs\<close>

text \<open>
  The card of Acme: the texts the generation service replies with, and the values
  \<^verbatim>\<open>json.loads\<close> decodes them to.
\<close>

definition ocr_text :: string where
  \<open>ocr_text = ''{"company": "Acme", "slogan": "Build the future", "name": "", "phone": "+14155551234"}''\<close>

definition acme_ocr :: "(string \<times> json) list" where
  "acme_ocr = [(''company'', JStr ''Acme''), (''slogan'', JStr ''Build the future''),
     (''name'', JStr []), (''phone'', JStr ''+14155551234'')]"

definition validated_text :: string where
  \<open>validated_text = ''{"company": "Acme", "slogan": "Build the future", "name": "", "phone": "+14155551234", "website": "https://acme.example", "validation_source": "https://acme.example", "is_validated": true}''\<close>

definition acme_validated :: "(string \<times> json) list" where
  "acme_validated = acme_ocr @ [(''website'', JStr ''https://acme.example''),
     (''validation_source'', JStr ''https://acme.example''), (''is_validated'', JBool True)]"

definition rejected_text :: string where
  \<open>rejected_text = ''{"company": "Acme", "slogan": "Build the future", "name": "", "phone": "+14155551234", "website": "", "validation_source": "https://acme.example", "is_validated": false}''\<close>

definition acme_rejected :: "(string \<times> json) list" where
  "acme_rejected = acme_ocr @ [(''website'', JStr []),
     (''validation_source'', JStr ''https://acme.example''), (''is_validated'', JBool False)]"

definition merged_text :: string where
  \<open>merged_text = ''{"company": "Acme", "slogan": "Build the future", "name": "", "phone": "+14155551234", "website": "https://acme.example", "validation_source": "https://acme.example", "is_validated": true, "about_the_company": "Acme builds things.", "location": "Austin, TX"}''\<close>

definition acme_merged :: "(string \<times> json) list" where
  "acme_merged = acme_validated @ [(''about_the_company'', JStr ''Acme builds things.''),
     (''location'', JStr ''Austin, TX'')]"

definition example_loads :: "string \<Rightarrow> json option" where
  "example_loads s =
     (if s = ocr_text then Some (JObj acme_ocr)
      else if s = validated_text then Some (JObj acme_validated)
      else if s = rejected_text then Some (JObj acme_rejected)
      else if s = merged_text then Some (JObj acme_merged)
      else if s = ''[]'' then Some (JArr [])
      else None)"

text \<open>
  A world from the replies of the three chat calls, the answer to a search given the
  calls made before it, and the answer of the sink. No number, list or dict is formatted
  in the example runs, and pydantic coerces nothing.
\<close>

definition world_of ::
  "string option outcome \<Rightarrow> string option outcome \<Rightarrow> string option outcome \<Rightarrow>
   (call list \<Rightarrow> http_response outcome) \<Rightarrow> http_response outcome \<Rightarrow> world" where
  "world_of extract_reply validate_reply merge_reply search_reply sink_reply =
     \<lparr>google_configured = True,
      chat_completions_create =
        (\<lambda>tr c. case c of
                   ChatExtraction imgs \<Rightarrow> extract_reply
                 | ChatValidation d g \<Rightarrow> validate_reply
                 | ChatMerge d g \<Rightarrow> merge_reply
                 | _ \<Rightarrow> Raises),
      requests_get = (\<lambda>tr c. search_reply tr),
      requests_post = (\<lambda>tr c. sink_reply),
      json_loads = example_loads,
      py_repr = (\<lambda>v. []),
      coerce_str = (\<lambda>v. None),
      coerce_bool = (\<lambda>v. None)\<rparr>"

definition acme_items :: json where
  "acme_items = JArr [JObj [(''title'', JStr ''Acme''), (''link'', JStr ''https://acme.example''),
     (''snippet'', JStr ''Acme builds things in Austin, TX.'')]]"

definition found :: "http_response outcome" where
  "found = Returns \<lparr>status_code = 200, json_body = Some (JObj [(''items'', acme_items)])\<rparr>"

definition nothing_found :: "http_response outcome" where
  "nothing_found = Returns \<lparr>status_code = 200, json_body = Some (JObj [])\<rparr>"

definition saved :: "http_response outcome" where
  "saved = Returns \<lparr>status_code = 200, json_body = Some (JObj [(''success'', JBool True)])\<rparr>"

definition fenced_body :: string where
  "fenced_body = [CHR 0x0A] @ ocr_text @ [CHR 0x0A]"

definition fenced_reply :: "string option outcome" where
  "fenced_reply = Returns (Some (fence_json @ fenced_body @ fence))"

text \<open>The full run: both searches find the company, the sink saves.\<close>

definition acme_world :: world where
  "acme_world = world_of fenced_reply (Returns (Some validated_text))
     (Returns (Some merged_text)) (\<lambda>tr. found) saved"

definition acme_request :: OCRRequest where
  "acme_request = \<lparr>base64Image1 = ''data:image/jpeg;base64,AAAA'', base64Image2 = None\<rparr>"

text \<open>The response of the full run.\<close>

definition acme_response :: OCRResponse where
  "acme_response =
     \<lparr>company = ''Acme'', name = [], title = [], phone = CHR 0x27 # ''+14155551234'',
      email = [], address = [], website = ''https://acme.example'',
      validation_source = ''https://acme.example'', is_validated = True,
      about_the_company = ''Acme builds things.'', location = ''Austin, TX''\<rparr>"

text \<open>The validation reply finds no genuine match, yet names a source.\<close>

definition rejected_world :: world where
  "rejected_world = world_of fenced_reply (Returns (Some rejected_text)) Raises (\<lambda>tr. found) saved"

text \<open>The first search finds the company, the second finds nothing.\<close>

definition first_search_only :: "call list \<Rightarrow> http_response outcome" where
  "first_search_only tr = (if filter is_search tr = [] then found else nothing_found)"

definition unenriched_world :: world where
  "unenriched_world = world_of fenced_reply (Returns (Some validated_text))
     (Returns (Some merged_text)) first_search_only saved"

text \<open>The sink refuses to save; the sink answers 300 Multiple Choices with a success body.\<close>

definition refused :: "http_response outcome" where
  "refused = Returns \<lparr>status_code = 200,
     json_body = Some (JObj [(''success'', JBool False), (''message'', JStr ''Sheet is full'')])\<rparr>"

definition refusing_world :: world where
  "refusing_world = world_of fenced_reply (Returns (Some validated_text))
     (Returns (Some merged_text)) (\<lambda>tr. found) refused"

definition saved_300 :: "http_response outcome" where
  "saved_300 = Returns \<lparr>status_code = 300, json_body = Some (JObj [(''success'', JBool True)])\<rparr>"

definition multiple_choices_world :: world where
  "multiple_choices_world = world_of fenced_reply (Returns (Some validated_text))
     (Returns (Some merged_text)) (\<lambda>tr. found) saved_300"

text \<open>The search answers 300 Multiple Choices with a result list; the search answers 503.\<close>

definition found_300 :: "http_response outcome" where
  "found_300 = Returns \<lparr>status_code = 300, json_body = Some (JObj [(''items'', acme_items)])\<rparr>"

definition search_300_world :: world where
  "search_300_world = world_of fenced_reply (Returns (Some validated_text))
     (Returns (Some merged_text)) (\<lambda>tr. found_300) saved"

definition unavailable :: "http_response outcome" where
  "unavailable = Returns \<lparr>status_code = 503, json_body = Some (JObj [(''items'', acme_items)])\<rparr>"

definition search_down_world :: world where
  "search_down_world = world_of fenced_reply (Returns (Some validated_text))
     (Returns (Some merged_text)) (\<lambda>tr. unavailable) saved"

text \<open>The extraction reply is prose, not JSON.\<close>

definition prose_world :: world where
  "prose_world = world_of (Returns (Some ''Sorry, I cannot read this card.''))
     (Returns (Some validated_text)) (Returns (Some merged_text)) (\<lambda>tr. found) saved"

text \<open>The finalised record of the full run, the payload that carries it, and the response
  of the run whose validation reply finds no match.\<close>

definition acme_final :: "(string \<times> json) list" where
  "acme_final = [(''company'', JStr ''Acme''), (''name'', JStr []),
     (''phone'', JStr (CHR 0x27 # ''+14155551234'')), (''website'', JStr ''https://acme.example''),
     (''validation_source'', JStr ''https://acme.example''), (''is_validated'', JBool True),
     (''about_the_company'', JStr ''Acme builds things.''), (''location'', JStr ''Austin, TX'')]"

definition acme_payload :: payload where
  "acme_payload = \<lparr>action = ''save'', photo1Base64 = ''AAAA'', photo2Base64 = [],
     extractedData = acme_final\<rparr>"

definition rejected_response :: OCRResponse where
  "rejected_response =
     \<lparr>company = ''Acme'', name = [], title = [], phone = CHR 0x27 # ''+14155551234'',
      email = [], address = [], website = [],
      validation_source = ''https://acme.example'', is_validated = False,
      about_the_company = [], location = []\<rparr>"

text \<open>The calls of the full run before its submission, and the final record when the
  second search finds nothing.\<close>

definition contact_text :: string where
  \<open>contact_text = ''"Acme" about description location contact info email phone address''\<close>

definition validated_calls :: "call list" where
  "validated_calls = [ChatExtraction [''data:image/jpeg;base64,AAAA''],
     GoogleSearch (JStr ''Acme Build the future'') 3,
     ChatValidation (JObj acme_ocr) acme_items]"

definition acme_calls :: "call list" where
  "acme_calls = validated_calls @ [GoogleSearch (JStr contact_text) 3,
     ChatMerge (JObj acme_validated) acme_items]"

definition unenriched_final :: "(string \<times> json) list" where
  "unenriched_final = [(''company'', JStr ''Acme''), (''name'', JStr []),
     (''phone'', JStr (CHR 0x27 # ''+14155551234'')), (''website'', JStr ''https://acme.example''),
     (''validation_source'', JStr ''https://acme.example''), (''is_validated'', JBool True)]"

section \<open>The specification's reading of a sink failure\<close>

text \<open>
  A sink failure: the request raised, the status is a client or server error, the body
  is no JSON object, or its \<open>success\<close> is missing or falsy.
\<close>

fun sink_failure :: "http_response outcome \<Rightarrow> bool" where
  "sink_failure Raises = True"
| "sink_failure (Returns response) =
     ((400 \<le> status_code response \<and> status_code response < 600) \<or>
      (case json_body response of
         Some (JObj kvs) \<Rightarrow> (case map_of kvs ''success'' of None \<Rightarrow> True | Some v \<Rightarrow> \<not> truthy v)
       | _ \<Rightarrow> True))"

section \<open>The final data of a run\<close>

text \<open>
  Read off the calls of a run and the world that answered them: the decoded reply to a
  validation or merge call made after the calls \<open>before\<close>, and the decoded reply to the
  last such call among \<open>calls\<close>, which is the final data of a run that made these calls
  before its submission.
\<close>

definition decoded_reply :: "world \<Rightarrow> call list \<Rightarrow> call \<Rightarrow> json option" where
  "decoded_reply w before c =
     (case chat_completions_create w before c of
        Raises \<Rightarrow> None
      | Returns reply \<Rightarrow> (case loads w reply of Inl e \<Rightarrow> None | Inr v \<Rightarrow> Some v))"

fun generation_reply :: "world \<Rightarrow> call list \<Rightarrow> call list \<Rightarrow> json option \<Rightarrow> json option" where
  "generation_reply w before [] latest = latest"
| "generation_reply w before (c # cs) latest =
     generation_reply w (before @ [c]) cs
       (case c of
          ChatValidation d g \<Rightarrow> decoded_reply w before c
        | ChatMerge v g \<Rightarrow> decoded_reply w before c
        | _ \<Rightarrow> latest)"

definition final_data_of :: "world \<Rightarrow> call list \<Rightarrow> json option" where
  "final_data_of w calls = generation_reply w [] calls None"

section \<open>Further example runs\<close>

text \<open>A request with both sides of the card, its calls before the submission and its payload.\<close>

definition two_sided_request :: OCRRequest where
  "two_sided_request = \<lparr>base64Image1 = ''data:image/jpeg;base64,AAAA'',
     base64Image2 = Some ''data:image/jpeg;base64,BBBB''\<rparr>"

definition two_sided_calls :: "call list" where
  "two_sided_calls = [ChatExtraction [''data:image/jpeg;base64,AAAA'', ''data:image/jpeg;base64,BBBB''],
     GoogleSearch (JStr ''Acme Build the future'') 3,
     ChatValidation (JObj acme_ocr) acme_items,
     GoogleSearch (JStr contact_text) 3,
     ChatMerge (JObj acme_validated) acme_items]"

definition two_sided_payload :: payload where
  "two_sided_payload = \<lparr>action = ''save'', photo1Base64 = ''AAAA'', photo2Base64 = ''BBBB'',
     extractedData = acme_final\<rparr>"

text \<open>The validation reply writes the phone as a JSON number.\<close>

definition numeric_phone_text :: string where
  \<open>numeric_phone_text = ''{"company": "Acme", "phone": 4155551234, "is_validated": false}''\<close>

definition numeric_phone_reply :: "(string \<times> json) list" where
  "numeric_phone_reply = [(''company'', JStr ''Acme''), (''phone'', JInt 4155551234),
     (''is_validated'', JBool False)]"

definition numeric_phone_world :: world where
  "numeric_phone_world =
     (world_of fenced_reply (Returns (Some numeric_phone_text)) Raises (\<lambda>tr. found) saved)
       \<lparr>json_loads := (\<lambda>s. if s = numeric_phone_text then Some (JObj numeric_phone_reply)
                           else example_loads s)\<rparr>"

text \<open>
  The extraction reply wraps in a JSON-marked block an object one of whose strings holds
  three backquotes; and a reply with prose around the block of the Acme card.
\<close>

definition inner_fence_text :: string where
  \<open>inner_fence_text = ''{"company": "a```b"}''\<close>

definition inner_fence_body :: string where
  "inner_fence_body = [CHR 0x0A] @ inner_fence_text @ [CHR 0x0A]"

definition inner_fence_world :: world where
  "inner_fence_world =
     (world_of (Returns (Some (fence_json @ inner_fence_body @ fence))) Raises Raises
        (\<lambda>tr. found) saved)
       \<lparr>json_loads := (\<lambda>s. if s = inner_fence_text
                           then Some (JObj [(''company'', JStr ''a```b'')]) else None)\<rparr>"

definition chatty_reply :: string where
  "chatty_reply = ''Here is the card:'' @ [CHR 0x0A] @ fence_json @ fenced_body @ fence @
     [CHR 0x0A] @ ''Anything else?''"

section \<open>Strings: splitting\<close>

lemma split_str_single_first:
  "c \<notin> set a \<Longrightarrow> split_str [c] (a @ c # rest) = a # split_str [c] rest"
  by (induction a) auto

lemma split_str_single_none: "c \<notin> set a \<Longrightarrow> split_str [c] a = [a]"
  by (induction a) auto

lemma contains_single: "contains [c] s \<longleftrightarrow> c \<in> set s"
  by (induction s) auto

section \<open>Input normalisation\<close>

text \<open>
  Claim C10. For an image payload with at least one comma, normalisation keeps what
  stands between the first and the second comma, or everything after the only comma:
  the text before the first comma goes, whatever it is, and so does everything from
  the second comma on. A payload without a comma is used as it is. The back image,
  when given, is treated like the front image.
\<close>

theorem normalize_image_commas:
  "CHR '','' \<notin> set a \<Longrightarrow> CHR '','' \<notin> set b \<Longrightarrow>
     normalize_image1 (a @ '','' @ b @ '','' @ c) = Inr b \<and>
     normalize_image1 (a @ '','' @ b) = Inr b \<and>
     normalize_image1 b = Inr b \<and>
     normalize_image2 (Some s) = normalize_image1 s"
proof (intro conjI)
  assume a: "CHR '','' \<notin> set a" and b: "CHR '','' \<notin> set b"
  have "split_str comma (a @ '','' @ b @ '','' @ c) = a # b # split_str comma c"
    using a b by (simp add: comma_def split_str_single_first)
  then show "normalize_image1 (a @ '','' @ b @ '','' @ c) = Inr b"
    by (simp add: normalize_image1_def comma_def contains_single)
  have "split_str comma (a @ '','' @ b) = [a, b]"
    using a b by (simp add: comma_def split_str_single_first split_str_single_none)
  then show "normalize_image1 (a @ '','' @ b) = Inr b"
    by (simp add: normalize_image1_def comma_def contains_single)
  show "normalize_image1 b = Inr b"
    using b by (simp add: normalize_image1_def comma_def contains_single)
  show "normalize_image2 (Some s) = normalize_image1 s"
    by (simp add: normalize_image2_def normalize_image1_def comma_def)
qed

theorem normalize_image_commas_witness:
  "CHR '','' \<notin> set ''data:image/png;base64'' \<and> CHR '','' \<notin> set ''AAAA'' \<and>
   normalize_image1 ''data:image/png;base64,AAAA,BBBB'' = Inr ''AAAA'' \<and>
   normalize_image1 ''data:image/png;base64,AAAA'' = Inr ''AAAA'' \<and>
   normalize_image1 ''AAAA'' = Inr ''AAAA'' \<and>
   normalize_image2 (Some ''x,y,z'') = normalize_image1 ''x,y,z''"
  using normalize_image_commas [of "''data:image/png;base64''" "''AAAA''" "''BBBB''" "''x,y,z''"]
  by simp

section \<open>Finalisation\<close>

lemma map_fst_update: "map_of d k \<noteq> None \<Longrightarrow> map fst (AList.update k v d) = map fst d"
  by (induction d) auto

section \<open>The validation search query\<close>

lemma text_or_absent_cases:
  "text_or_absent m k \<Longrightarrow>
     (\<exists>v. \<not> truthy v \<and> py_get (JObj m) k (JStr []) = Inr v \<and> present m k = None) \<or>
     (\<exists>s. s \<noteq> [] \<and> py_get (JObj m) k (JStr []) = Inr (JStr s) \<and> present m k = Some s)"
  by (auto simp: text_or_absent_def present_def py_get_def split: option.splits json.splits)

text \<open>
  Claim C2. For an extracted mapping whose company, name and slogan are strings, null or
  missing, the query the handler builds is the one of the specification's precedence
  over the three texts, an empty text counting as absent; and the validation search
  sends that query, or, when the precedence yields none, sends nothing and returns
  \<^verbatim>\<open>None\<close> with the calls unchanged.
\<close>

theorem search_query_precedence:
  assumes "text_or_absent m ''company''" and "text_or_absent m ''name''"
    and "text_or_absent m ''slogan''"
  shows "(case spec_search_query (present m ''company'') (present m ''name'') (present m ''slogan'') of
            Some q \<Rightarrow> build_search_query w (JObj m) = Inr (JStr q) \<and>
                      validation_search w tr (JStr q) = search_google w tr (JStr q) 3
          | None \<Rightarrow> build_search_query w (JObj m) = Inr (JStr []) \<and>
                    validation_search w tr (JStr []) = (tr, JNull))"
proof -
  from text_or_absent_cases [OF assms(1)] text_or_absent_cases [OF assms(2)]
    text_or_absent_cases [OF assms(3)]
  show ?thesis
    by (elim disjE exE conjE)
       (simp_all add: build_search_query_def py_str_def validation_search_def)
qed

theorem search_query_precedence_witness:
  "text_or_absent [(''company'', JStr ''Acme''), (''slogan'', JStr ''Build the future''),
     (''name'', JStr [])] ''company'' \<and>
   text_or_absent [(''company'', JStr ''Acme''), (''slogan'', JStr ''Build the future''),
     (''name'', JStr [])] ''name'' \<and>
   text_or_absent [(''company'', JStr ''Acme''), (''slogan'', JStr ''Build the future''),
     (''name'', JStr [])] ''slogan'' \<and>
   build_search_query acme_world (JObj [(''company'', JStr ''Acme''),
     (''slogan'', JStr ''Build the future''), (''name'', JStr [])]) =
     Inr (JStr ''Acme Build the future'') \<and>
   validation_search acme_world [] (JStr ''Acme Build the future'') =
     search_google acme_world [] (JStr ''Acme Build the future'') 3"
  using search_query_precedence [of "[(''company'', JStr ''Acme''),
     (''slogan'', JStr ''Build the future''), (''name'', JStr [])]" acme_world "[]"]
  by (simp add: text_or_absent_def present_def)

section \<open>The shape of a run\<close>

text \<open>
  Every stage before the submission leaves the submissions among the calls unchanged
  and raises no \<^verbatim>\<open>HTTPException\<close>; so a run either fails before the submission with
  status 500, or makes the submission as its last call and answers by its outcome.
\<close>


lemma py_get_plain: "py_get d k x = Inl e \<Longrightarrow> plain e"
  by (auto simp: py_get_def split: json.splits)

lemma loads_plain: "loads w c = Inl e \<Longrightarrow> plain e"
  by (auto simp: loads_def split: option.splits)

lemma parse_openai_json_plain: "parse_openai_json w c = Inl e \<Longrightarrow> plain e"
  by (auto simp: parse_openai_json_def split: option.splits if_splits list.splits dest: loads_plain)

lemma normalize_image1_plain: "normalize_image1 s = Inl e \<Longrightarrow> plain e"
  by (auto simp: normalize_image1_def split: if_splits list.splits)

lemma normalize_image2_plain: "normalize_image2 s = Inl e \<Longrightarrow> plain e"
  by (auto simp: normalize_image2_def split: option.splits if_splits list.splits)

lemma build_search_query_plain: "build_search_query w d = Inl e \<Longrightarrow> plain e"
  by (auto simp: build_search_query_def split: sum.splits dest: py_get_plain)

lemma search_google_posts: "filter is_post (fst (search_google w tr q n)) = filter is_post tr"
  by (simp add: search_google_def Let_def)

lemma validation_search_posts:
  "filter is_post (fst (validation_search w tr q)) = filter is_post tr"
  by (simp add: validation_search_def search_google_posts)

lemma extraction_shape:
  "extraction w tr i1 i2 = (tr', x) \<Longrightarrow>
     filter is_post tr' = filter is_post tr \<and> (\<forall>e. x = Inl e \<longrightarrow> plain e)"
  by (auto simp: extraction_def Let_def split: outcome.splits dest: parse_openai_json_plain)

lemma validation_shape:
  "validation w tr d g = (tr', x) \<Longrightarrow>
     filter is_post tr' = filter is_post tr \<and> (\<forall>e. x = Inl e \<longrightarrow> plain e)"
  by (auto simp: validation_def Let_def split: outcome.splits dest: loads_plain)

lemma enrichment_search_shape:
  "enrichment_search w tr v = (tr', x) \<Longrightarrow>
     filter is_post tr' = filter is_post tr \<and> (\<forall>e. x = Inl e \<longrightarrow> plain e)"
  using search_google_posts [of w tr]
  by (auto simp: enrichment_search_def split: sum.splits if_splits prod.splits
      dest: py_get_plain) (metis fst_conv)+

lemma final_merge_shape:
  "final_merge w tr v r = (tr', x) \<Longrightarrow>
     filter is_post tr' = filter is_post tr \<and> (\<forall>e. x = Inl e \<longrightarrow> plain e)"
  by (auto simp: final_merge_def Let_def split: if_splits outcome.splits dest: loads_plain)

lemma escape_phone_plain: "escape_phone fd = Inl e \<Longrightarrow> plain e"
  by (auto simp: escape_phone_def split: json.splits option.splits if_splits)

lemma finalize_plain: "finalize fd = Inl e \<Longrightarrow> plain e"
  by (auto simp: finalize_def split: sum.splits dest: escape_phone_plain)

lemma finish_shape:
  "finish w tr i1 i2 fd = (tr', res) \<Longrightarrow>
     (tr' = tr \<and> (\<exists>e. res = Inl e \<and> plain e)) \<or>
     (\<exists>d. finalize fd = Inr d \<and>
        tr' = tr @ [AppsScriptPost \<lparr>action = ''save'', photo1Base64 = i1, photo2Base64 = i2,
                      extractedData = d\<rparr>] \<and>
        res = (case save_result_check (requests_post w tr
                 (AppsScriptPost \<lparr>action = ''save'', photo1Base64 = i1, photo2Base64 = i2,
                    extractedData = d\<rparr>)) of
                 Inl e \<Rightarrow> Inl (HTTPException 502 (SubmissionFailed e))
               | Inr u \<Rightarrow> OCRResponse_of w d))"
proof -
  assume f: "finish w tr i1 i2 fd = (tr', res)"
  have p2: "(if i2 \<noteq> [] then i2 else []) = i2" by simp
  show ?thesis
  proof (cases "finalize fd")
    case (Inl e)
    with f finalize_plain [OF Inl] show ?thesis by (auto simp: finish_def)
  next
    case (Inr d)
    with f show ?thesis
      unfolding finish_def submit_def Let_def p2
      by (intro disjI2 exI [of _ d]) (auto split: sum.splits)
  qed
qed

lemma after_validation_shape:
  assumes "after_validation w tr i1 i2 v = (tr', res)"
  shows "(filter is_post tr' = filter is_post tr \<and> (\<exists>e. res = Inl e \<and> plain e)) \<or>
         (\<exists>tr0 fd. filter is_post tr0 = filter is_post tr \<and> finish w tr0 i1 i2 fd = (tr', res))"
proof -
  obtain t1 x1 where s1: "enrichment_search w tr v = (t1, x1)" by (cases "enrichment_search w tr v")
  note h1 = enrichment_search_shape [OF s1]
  show ?thesis
  proof (cases x1)
    case (Inl e)
    with assms s1 h1 show ?thesis by (auto simp: after_validation_def)
  next
    case (Inr r)
    obtain t2 x2 where s2: "final_merge w t1 v r = (t2, x2)" by (cases "final_merge w t1 v r")
    note h2 = final_merge_shape [OF s2]
    show ?thesis
    proof (cases x2)
      case (Inl e)
      with assms s1 s2 h1 h2 Inr show ?thesis by (auto simp: after_validation_def)
    next
      case fd: (Inr fd)
      with assms s1 s2 Inr have "finish w t2 i1 i2 fd = (tr', res)"
        by (simp add: after_validation_def)
      with h1 h2 show ?thesis by auto
    qed
  qed
qed

lemma after_extraction_shape:
  assumes "after_extraction w tr i1 i2 d = (tr', res)"
  shows "(filter is_post tr' = filter is_post tr \<and> (\<exists>e. res = Inl e \<and> plain e)) \<or>
         (\<exists>tr0 fd. filter is_post tr0 = filter is_post tr \<and> finish w tr0 i1 i2 fd = (tr', res))"
proof (cases "build_search_query w d")
  case (Inl e)
  with assms build_search_query_plain [OF Inl] show ?thesis by (auto simp: after_extraction_def)
next
  case (Inr q)
  obtain t1 g where s1: "validation_search w tr q = (t1, g)" by (cases "validation_search w tr q")
  have h1: "filter is_post t1 = filter is_post tr"
    using validation_search_posts [of w tr q] s1 by simp
  obtain t2 x2 where s2: "validation w t1 d g = (t2, x2)" by (cases "validation w t1 d g")
  note h2 = validation_shape [OF s2]
  show ?thesis
  proof (cases x2)
    case (Inl e)
    with assms Inr s1 s2 h1 h2 show ?thesis by (auto simp: after_extraction_def)
  next
    case v: (Inr v)
    with assms Inr s1 s2 have "after_validation w t2 i1 i2 v = (tr', res)"
      by (simp add: after_extraction_def)
    from after_validation_shape [OF this] h1 h2 show ?thesis by auto
  qed
qed

lemma pipeline_shape:
  assumes "pipeline w req = (tr', res)"
  shows "(filter is_post tr' = [] \<and> (\<exists>e. res = Inl e \<and> plain e)) \<or>
         (\<exists>tr0 fd i1 i2. normalize_image1 (base64Image1 req) = Inr i1 \<and>
             normalize_image2 (base64Image2 req) = Inr i2 \<and>
             filter is_post tr0 = [] \<and> finish w tr0 i1 i2 fd = (tr', res))"
proof (cases "normalize_image1 (base64Image1 req)")
  case (Inl e)
  with assms normalize_image1_plain [OF Inl] show ?thesis by (auto simp: pipeline_def)
next
  case i1: (Inr i1)
  show ?thesis
  proof (cases "normalize_image2 (base64Image2 req)")
    case (Inl e)
    with assms i1 normalize_image2_plain [OF Inl] show ?thesis by (auto simp: pipeline_def)
  next
    case i2: (Inr i2)
    obtain t1 x1 where s1: "extraction w [] i1 i2 = (t1, x1)" by (cases "extraction w [] i1 i2")
    note h1 = extraction_shape [OF s1]
    show ?thesis
    proof (cases x1)
      case (Inl e)
      with assms i1 i2 s1 h1 show ?thesis by (auto simp: pipeline_def)
    next
      case d: (Inr d)
      with assms i1 i2 s1 have "after_extraction w t1 i1 i2 d = (tr', res)"
        by (simp add: pipeline_def)
      from after_extraction_shape [OF this] h1 i1 i2 show ?thesis by auto
    qed
  qed
qed

lemma outer_except_plain: "plain e \<Longrightarrow> outer_except e = HTTPException 500 (ProcessingError e)"
  by (cases e) (simp_all add: outer_except_def)

lemma perform_ocr_shape:
  assumes "perform_ocr w req = (tr, res)"
  shows "(filter is_post tr = [] \<and>
           (\<exists>e. plain e \<and> res = Inl (HTTPException 500 (ProcessingError e)))) \<or>
         (\<exists>pre fd d i1 i2. normalize_image1 (base64Image1 req) = Inr i1 \<and>
             normalize_image2 (base64Image2 req) = Inr i2 \<and>
             filter is_post pre = [] \<and> finalize fd = Inr d \<and>
             tr = pre @ [AppsScriptPost \<lparr>action = ''save'', photo1Base64 = i1,
                           photo2Base64 = i2, extractedData = d\<rparr>] \<and>
             res = (case save_result_check (requests_post w pre
                      (AppsScriptPost \<lparr>action = ''save'', photo1Base64 = i1,
                         photo2Base64 = i2, extractedData = d\<rparr>)) of
                      Inl e \<Rightarrow> Inl (HTTPException 502 (SubmissionFailed e))
                    | Inr u \<Rightarrow>
                        (case OCRResponse_of w d of
                           Inl e \<Rightarrow> Inl (HTTPException 500 (ProcessingError e))
                         | Inr r \<Rightarrow> Inr r)))"
proof -
  obtain t x where p: "pipeline w req = (t, x)" by (cases "pipeline w req")
  have res: "tr = t" "res = (case x of Inl e \<Rightarrow> Inl (outer_except e) | Inr r \<Rightarrow> Inr r)"
    using assms p by (auto simp: perform_ocr_def split: sum.splits)
  from pipeline_shape [OF p] show ?thesis
  proof (elim disjE exE conjE)
    fix e assume "filter is_post t = []" "x = Inl e" "plain e"
    with res show ?thesis by (simp add: outer_except_plain)
  next
    fix tr0 fd i1 i2
    assume n: "normalize_image1 (base64Image1 req) = Inr i1"
      "normalize_image2 (base64Image2 req) = Inr i2"
      and np: "filter is_post tr0 = []" and f: "finish w tr0 i1 i2 fd = (t, x)"
    from finish_shape [OF f] show ?thesis
    proof (elim disjE exE conjE)
      fix e assume "t = tr0" "x = Inl e" "plain e"
      with res np show ?thesis by (simp add: outer_except_plain)
    next
      fix d
      assume fin: "finalize fd = Inr d"
        and t: "t = tr0 @ [AppsScriptPost \<lparr>action = ''save'', photo1Base64 = i1,
                 photo2Base64 = i2, extractedData = d\<rparr>]"
        and x: "x = (case save_result_check (requests_post w tr0
                 (AppsScriptPost \<lparr>action = ''save'', photo1Base64 = i1, photo2Base64 = i2,
                    extractedData = d\<rparr>)) of
                 Inl e \<Rightarrow> Inl (HTTPException 502 (SubmissionFailed e))
               | Inr u \<Rightarrow> OCRResponse_of w d)"
      have ov: "OCRResponse_of w d = Inl e \<Longrightarrow> e = ValidationError" for e
        by (auto simp: OCRResponse_of_def split: list.splits option.splits prod.splits)
      have "res = (case save_result_check (requests_post w tr0
                      (AppsScriptPost \<lparr>action = ''save'', photo1Base64 = i1,
                         photo2Base64 = i2, extractedData = d\<rparr>)) of
                      Inl e \<Rightarrow> Inl (HTTPException 502 (SubmissionFailed e))
                    | Inr u \<Rightarrow>
                        (case OCRResponse_of w d of
                           Inl e \<Rightarrow> Inl (HTTPException 500 (ProcessingError e))
                         | Inr r \<Rightarrow> Inr r))"
        using res(2) x ov by (auto simp: outer_except_def split: sum.splits)
      with n np fin t res(1) show ?thesis by blast
    qed
  qed
qed

section \<open>Evaluating the example runs\<close>

lemmas example_defs = acme_world_def world_of_def fenced_reply_def fenced_body_def acme_request_def
  ocr_text_def validated_text_def rejected_text_def merged_text_def example_loads_def
  acme_ocr_def acme_validated_def acme_rejected_def acme_merged_def found_def saved_def
  nothing_found_def acme_items_def fence_def fence_json_def comma_def acme_response_def
  rejected_world_def first_search_only_def unenriched_world_def refused_def
  refusing_world_def saved_300_def multiple_choices_world_def found_300_def
  search_300_world_def unavailable_def search_down_world_def prose_world_def
  acme_final_def acme_payload_def rejected_response_def

lemmas run_defs = perform_ocr_def pipeline_def normalize_image1_def normalize_image2_def
  extraction_def parse_openai_json_def loads_def py_strip_def is_space_def
  after_extraction_def build_search_query_def py_get_def py_str_def validation_search_def
  search_google_def search_items_def raise_for_status_def py_in_def py_getitem_def py_len_def
  validation_def after_validation_def enrichment_search_def contact_query_def final_merge_def
  finish_def finalize_def escape_phone_def remove_slogan_def submit_def save_result_check_def
  OCRResponse_of_def validate_str_def validate_bool_def str_fields_def data_url_def
  outer_except_def

lemmas call_defs = contact_text_def validated_calls_def acme_calls_def unenriched_final_def

lemma acme_run:
  "perform_ocr acme_world acme_request =
     (acme_calls @ [AppsScriptPost acme_payload], Inr acme_response)"
  by (simp add: run_defs example_defs call_defs Let_def)

lemma isl_save_result_check: "isl (save_result_check x) = sink_failure x"
  by (cases x)
     (auto simp: save_result_check_def raise_for_status_def py_get_def
        split: option.splits json.splits)

lemma OCRResponse_of_fields:
  "OCRResponse_of w d = Inr r \<Longrightarrow>
     validate_str w d ''company'' = Some (company r) \<and>
     validate_str w d ''name'' = Some (name r) \<and>
     validate_str w d ''title'' = Some (title r) \<and>
     validate_str w d ''phone'' = Some (phone r) \<and>
     validate_str w d ''email'' = Some (email r) \<and>
     validate_str w d ''address'' = Some (address r) \<and>
     validate_str w d ''website'' = Some (website r) \<and>
     validate_str w d ''validation_source'' = Some (validation_source r) \<and>
     validate_str w d ''about_the_company'' = Some (about_the_company r) \<and>
     validate_str w d ''location'' = Some (location r) \<and>
     validate_bool w d ''is_validated'' = Some (is_validated r)"
  by (auto simp: OCRResponse_of_def str_fields_def split: option.splits)

lemma finalize_no_slogan: "finalize fd = Inr d \<Longrightarrow> map_of d ''slogan'' = None"
  by (auto simp: finalize_def remove_slogan_def delete_conv' split: sum.splits)

lemma finalize_other_keys:
  "finalize (JObj v) = Inr d \<Longrightarrow> k \<noteq> ''phone'' \<Longrightarrow> k \<noteq> ''slogan'' \<Longrightarrow> map_of d k = map_of v k"
  by (auto simp: finalize_def escape_phone_def remove_slogan_def delete_conv' update_conv'
      split: sum.splits json.splits option.splits if_splits)

lemma perform_ocr_success:
  assumes "perform_ocr w req = (tr, Inr r)"
  shows "\<exists>pre fd d i1 i2. normalize_image1 (base64Image1 req) = Inr i1 \<and>
           normalize_image2 (base64Image2 req) = Inr i2 \<and>
           filter is_post pre = [] \<and> finalize fd = Inr d \<and>
           tr = pre @ [AppsScriptPost \<lparr>action = ''save'', photo1Base64 = i1,
                         photo2Base64 = i2, extractedData = d\<rparr>] \<and>
           OCRResponse_of w d = Inr r"
proof -
  from perform_ocr_shape [OF assms] show ?thesis
  proof (elim disjE exE conjE)
    fix e assume "Inr r = Inl (HTTPException 500 (ProcessingError e))"
    then show ?thesis by simp
  next
    fix pre fd d i1 i2
    assume n: "normalize_image1 (base64Image1 req) = Inr i1"
      "normalize_image2 (base64Image2 req) = Inr i2"
      "filter is_post pre = []" "finalize fd = Inr d"
      "tr = pre @ [AppsScriptPost \<lparr>action = ''save'', photo1Base64 = i1,
                           photo2Base64 = i2, extractedData = d\<rparr>]"
      and res: "Inr r = (case save_result_check (requests_post w pre
                      (AppsScriptPost \<lparr>action = ''save'', photo1Base64 = i1,
                         photo2Base64 = i2, extractedData = d\<rparr>)) of
                      Inl e \<Rightarrow> Inl (HTTPException 502 (SubmissionFailed e))
                    | Inr u \<Rightarrow>
                        (case OCRResponse_of w d of
                           Inl e \<Rightarrow> Inl (HTTPException 500 (ProcessingError e))
                         | Inr r \<Rightarrow> Inr r))"
    from res have "OCRResponse_of w d = Inr r"
      by (auto split: sum.splits)
    with n show ?thesis by blast
  qed
qed

text \<open>
  Claim C1. A request that completes successfully answers with a body of exactly the
  eleven fields of \<^verbatim>\<open>OCRResponse\<close>, in order: \<open>is_validated\<close> a boolean, every other one a
  string, none null or missing, and no \<open>slogan\<close> among them. The response is built from
  the final mapping that the run submitted to the sink as its last call; a string field
  whose key that mapping lacks is the empty string, and \<open>is_validated\<close> is false when
  its key is lacking.
\<close>

theorem response_has_all_fields:
  assumes "perform_ocr w req = (tr, Inr r)"
  shows "map fst (response_json r) =
           [''company'', ''name'', ''title'', ''phone'', ''email'', ''address'', ''website'',
            ''validation_source'', ''is_validated'', ''about_the_company'', ''location''] \<and>
         (\<forall>k v. (k, v) \<in> set (response_json r) \<longrightarrow>
            (if k = ''is_validated'' then \<exists>b. v = JBool b else \<exists>s. v = JStr s)) \<and>
         ''slogan'' \<notin> set (map fst (response_json r)) \<and>
         (\<exists>pre p. tr = pre @ [AppsScriptPost p] \<and>
            OCRResponse_of w (extractedData p) = Inr r \<and>
            (\<forall>k \<in> set str_fields. map_of (extractedData p) k = None \<longrightarrow>
               map_of (response_json r) k = Some (JStr [])) \<and>
            (map_of (extractedData p) ''is_validated'' = None \<longrightarrow>
               map_of (response_json r) ''is_validated'' = Some (JBool False)))"
proof -
  from perform_ocr_success [OF assms]
  obtain pre d i1 i2 where tr: "tr = pre @ [AppsScriptPost \<lparr>action = ''save'',
        photo1Base64 = i1, photo2Base64 = i2, extractedData = d\<rparr>]"
    and r: "OCRResponse_of w d = Inr r"
    by blast
  note f = OCRResponse_of_fields [OF r]
  have fill: "\<forall>k \<in> set str_fields. map_of d k = None \<longrightarrow> map_of (response_json r) k = Some (JStr [])"
    using f by (auto simp: str_fields_def response_json_def validate_str_def)
  have fillb: "map_of d ''is_validated'' = None \<longrightarrow>
      map_of (response_json r) ''is_validated'' = Some (JBool False)"
    using f by (auto simp: response_json_def validate_bool_def)
  have shape: "map fst (response_json r) =
           [''company'', ''name'', ''title'', ''phone'', ''email'', ''address'', ''website'',
            ''validation_source'', ''is_validated'', ''about_the_company'', ''location'']"
    by (simp add: response_json_def)
  have typed: "\<forall>k v. (k, v) \<in> set (response_json r) \<longrightarrow>
            (if k = ''is_validated'' then \<exists>b. v = JBool b else \<exists>s. v = JStr s)"
    by (auto simp: response_json_def)
  have nos: "''slogan'' \<notin> set (map fst (response_json r))"
    by (simp add: response_json_def)
  from tr r fill fillb have "\<exists>pre p. tr = pre @ [AppsScriptPost p] \<and>
            OCRResponse_of w (extractedData p) = Inr r \<and>
            (\<forall>k \<in> set str_fields. map_of (extractedData p) k = None \<longrightarrow>
               map_of (response_json r) k = Some (JStr [])) \<and>
            (map_of (extractedData p) ''is_validated'' = None \<longrightarrow>
               map_of (response_json r) ''is_validated'' = Some (JBool False))"
    by (intro exI [of _ pre] exI [of _ "\<lparr>action = ''save'',
        photo1Base64 = i1, photo2Base64 = i2, extractedData = d\<rparr>"]) simp
  with shape typed nos show ?thesis by blast
qed

theorem response_has_all_fields_witness:
  "perform_ocr acme_world acme_request = (fst (perform_ocr acme_world acme_request), Inr acme_response) \<and>
   map fst (response_json acme_response) =
     [''company'', ''name'', ''title'', ''phone'', ''email'', ''address'', ''website'',
      ''validation_source'', ''is_validated'', ''about_the_company'', ''location''] \<and>
   map_of (response_json acme_response) ''title'' = Some (JStr []) \<and>
   ''slogan'' \<notin> set (map fst (response_json acme_response))"
proof -
  have run: "perform_ocr acme_world acme_request =
      (fst (perform_ocr acme_world acme_request), Inr acme_response)"
    by (simp add: acme_run)
  from response_has_all_fields [OF run] run show ?thesis
    by (simp add: response_json_def acme_response_def)
qed

text \<open>
  Claim C7, amended. In every run: if the last call is the submission and the sink
  failed (the request raised, the status is 4xx or 5xx, the body is no JSON object, or
  its \<open>success\<close> is missing or falsy), the request fails with status 502; a record is
  returned only after a submission that did not fail; and a failing request has status
  502 exactly when the sink failed, status 500 otherwise.
\<close>

theorem sink_failure_is_fatal:
  assumes "perform_ocr w req = (tr, res)"
  shows "(\<forall>pre p. tr = pre @ [AppsScriptPost p] \<and>
            sink_failure (requests_post w pre (AppsScriptPost p)) \<longrightarrow>
            (\<exists>e. res = Inl (HTTPException 502 (SubmissionFailed e)))) \<and>
         (\<forall>r. res = Inr r \<longrightarrow>
            (\<exists>pre p. tr = pre @ [AppsScriptPost p] \<and>
               \<not> sink_failure (requests_post w pre (AppsScriptPost p)))) \<and>
         (\<forall>s d. res = Inl (HTTPException s d) \<longrightarrow>
            (if \<exists>pre p. tr = pre @ [AppsScriptPost p] \<and>
                  sink_failure (requests_post w pre (AppsScriptPost p))
             then s = 502 else s = 500))"
proof -
  from perform_ocr_shape [OF assms] show ?thesis
  proof (elim disjE exE conjE)
    fix e assume np: "filter is_post tr = []" and "plain e"
      and res: "res = Inl (HTTPException 500 (ProcessingError e))"
    have "tr \<noteq> pre @ [AppsScriptPost p]" for pre p
      using np by auto
    with res show ?thesis by simp
  next
    fix pre fd d i1 i2
    assume tr: "tr = pre @ [AppsScriptPost \<lparr>action = ''save'', photo1Base64 = i1,
                           photo2Base64 = i2, extractedData = d\<rparr>]"
      and res: "res = (case save_result_check (requests_post w pre
                      (AppsScriptPost \<lparr>action = ''save'', photo1Base64 = i1,
                         photo2Base64 = i2, extractedData = d\<rparr>)) of
                      Inl e \<Rightarrow> Inl (HTTPException 502 (SubmissionFailed e))
                    | Inr u \<Rightarrow>
                        (case OCRResponse_of w d of
                           Inl e \<Rightarrow> Inl (HTTPException 500 (ProcessingError e))
                         | Inr r \<Rightarrow> Inr r))"
    let ?p = "\<lparr>action = ''save'', photo1Base64 = i1, photo2Base64 = i2, extractedData = d\<rparr>"
    let ?x = "requests_post w pre (AppsScriptPost ?p)"
    have uniq: "tr = pre' @ [AppsScriptPost p'] \<longleftrightarrow> pre' = pre \<and> p' = ?p" for pre' p'
      using tr by auto
    show ?thesis
    proof (cases "sink_failure ?x")
      case True
      then obtain e where "save_result_check ?x = Inl e"
        using isl_save_result_check [of ?x] by (cases "save_result_check ?x") auto
      with res True show ?thesis by (simp add: uniq)
    next
      case False
      then obtain u where "save_result_check ?x = Inr u"
        using isl_save_result_check [of ?x] by (cases "save_result_check ?x") auto
      with res False show ?thesis by (auto simp: uniq split: sum.splits)
    qed
  qed
qed

lemma refusing_run:
  "perform_ocr refusing_world acme_request =
     (acme_calls @ [AppsScriptPost acme_payload],
      Inl (HTTPException 502 (SubmissionFailed
        (HTTPException 500 (GoogleScriptError (JStr ''Sheet is full''))))))"
  by (simp add: run_defs example_defs call_defs Let_def)

theorem sink_failure_is_fatal_witness:
  "perform_ocr refusing_world acme_request =
     (acme_calls @ [AppsScriptPost acme_payload], snd (perform_ocr refusing_world acme_request)) \<and>
   sink_failure (requests_post refusing_world acme_calls (AppsScriptPost acme_payload)) \<and>
   (\<exists>e. snd (perform_ocr refusing_world acme_request) =
      Inl (HTTPException 502 (SubmissionFailed e)))"
proof -
  have run: "perform_ocr refusing_world acme_request =
     (acme_calls @ [AppsScriptPost acme_payload], snd (perform_ocr refusing_world acme_request))"
    by (simp add: refusing_run)
  have f: "sink_failure (requests_post refusing_world acme_calls (AppsScriptPost acme_payload))"
    by (simp add: refusing_world_def world_of_def refused_def)
  from sink_failure_is_fatal [OF run] f run show ?thesis by blast
qed

text \<open>
  Claim C7 as stated fails for a status that is neither 2xx nor an error: the sink
  answers 300 with a body that reports success, \<^verbatim>\<open>raise_for_status\<close> does not raise, and
  the run returns the record.
\<close>

theorem sink_status_300_counterexample:
  "requests_post multiple_choices_world acme_calls (AppsScriptPost acme_payload) =
     Returns \<lparr>status_code = 300, json_body = Some (JObj [(''success'', JBool True)])\<rparr> \<and>
   perform_ocr multiple_choices_world acme_request =
     (acme_calls @ [AppsScriptPost acme_payload], Inr acme_response)"
  by (simp add: run_defs example_defs call_defs Let_def)

section \<open>After validation\<close>

lemma search_google_merges: "filter is_merge (fst (search_google w tr q n)) = filter is_merge tr"
  by (simp add: search_google_def Let_def)

lemma finish_trace:
  "fst (finish w tr i1 i2 fd) =
     (case finalize fd of
        Inl e \<Rightarrow> tr
      | Inr d \<Rightarrow> tr @ [AppsScriptPost \<lparr>action = ''save'', photo1Base64 = i1, photo2Base64 = i2,
                          extractedData = d\<rparr>])"
proof -
  have p2: "(if i2 \<noteq> [] then i2 else []) = i2" by simp
  show ?thesis
    unfolding finish_def submit_def Let_def p2
    by (simp split: sum.splits)
qed

lemma finish_success:
  assumes "finish w tr i1 i2 fd = (t, Inr r)"
  shows "\<exists>d. finalize fd = Inr d \<and> OCRResponse_of w d = Inr r"
proof (cases "finalize fd")
  case (Inl e)
  with assms show ?thesis by (simp add: finish_def)
next
  case (Inr d)
  with assms have "OCRResponse_of w d = Inr r"
    by (simp add: finish_def submit_def Let_def split: sum.splits)
  with Inr show ?thesis by simp
qed

lemma enrichment_search_merges:
  "filter is_merge (fst (enrichment_search w tr v)) = filter is_merge tr"
proof (cases "py_get v ''is_validated'' JNull")
  case (Inl e)
  then show ?thesis by (simp add: enrichment_search_def)
next
  case iv: (Inr iv)
  show ?thesis
  proof (cases "py_get v ''company'' JNull")
    case (Inl e)
    with iv show ?thesis by (simp add: enrichment_search_def)
  next
    case (Inr c)
    obtain t r where sg: "search_google w tr (JStr (contact_query w c)) 3 = (t, r)"
      by (cases "search_google w tr (JStr (contact_query w c)) 3")
    with search_google_merges [of w tr "JStr (contact_query w c)" 3]
    have "filter is_merge t = filter is_merge tr" by simp
    with iv Inr sg show ?thesis
      by (simp add: enrichment_search_def)
  qed
qed


text \<open>
  Claim C4, amended. When the validated data is an object whose \<open>is_validated\<close> is
  missing or falsy, the enrichment search sends nothing, the merge asks nothing of the
  generation service, and the run goes on to finalise the validated data as they are:
  no search and no merge call is added to the calls. The \<open>validation_source\<close> of the
  final record is the one of the validation reply, and so is that of the response; it is
  empty when the reply gives the empty string or leaves the key out.
\<close>

theorem rejected_skips_enrichment:
  assumes "py_get (JObj v) ''is_validated'' JNull = Inr iv" and "\<not> truthy iv"
  shows "enrichment_search w tr (JObj v) = (tr, Inr JNull) \<and>
         final_merge w tr (JObj v) JNull = (tr, Inr (JObj v)) \<and>
         after_validation w tr i1 i2 (JObj v) = finish w tr i1 i2 (JObj v) \<and>
         filter is_search (fst (after_validation w tr i1 i2 (JObj v))) = filter is_search tr \<and>
         filter is_merge (fst (after_validation w tr i1 i2 (JObj v))) = filter is_merge tr \<and>
         (\<forall>d. finalize (JObj v) = Inr d \<longrightarrow>
            map_of d ''validation_source'' = map_of v ''validation_source'') \<and>
         (\<forall>t r. after_validation w tr i1 i2 (JObj v) = (t, Inr r) \<longrightarrow>
            validate_str w v ''validation_source'' = Some (validation_source r))"
proof -
  have es: "enrichment_search w tr (JObj v) = (tr, Inr JNull)"
    using assms by (simp add: enrichment_search_def)
  have fm: "final_merge w tr (JObj v) JNull = (tr, Inr (JObj v))"
    by (simp add: final_merge_def)
  have av: "after_validation w tr i1 i2 (JObj v) = finish w tr i1 i2 (JObj v)"
    by (simp add: after_validation_def es fm)
  have ns: "filter is_search (fst (after_validation w tr i1 i2 (JObj v))) = filter is_search tr"
    unfolding av finish_trace by (simp split: sum.splits)
  have nm: "filter is_merge (fst (after_validation w tr i1 i2 (JObj v))) = filter is_merge tr"
    unfolding av finish_trace by (simp split: sum.splits)
  have vs: "\<forall>d. finalize (JObj v) = Inr d \<longrightarrow>
            map_of d ''validation_source'' = map_of v ''validation_source''"
    using finalize_other_keys [of v _ "''validation_source''"] by simp
  have resp: "\<forall>t r. after_validation w tr i1 i2 (JObj v) = (t, Inr r) \<longrightarrow>
            validate_str w v ''validation_source'' = Some (validation_source r)"
  proof (intro allI impI)
    fix t r assume a: "after_validation w tr i1 i2 (JObj v) = (t, Inr r)"
    with av have f': "finish w tr i1 i2 (JObj v) = (t, Inr r)" by simp
    from finish_success [OF f'] obtain d where d: "finalize (JObj v) = Inr d"
      and r: "OCRResponse_of w d = Inr r"
      by blast
    from vs d have "validate_str w d ''validation_source'' = validate_str w v ''validation_source''"
      by (simp add: validate_str_def)
    with OCRResponse_of_fields [OF r]
    show "validate_str w v ''validation_source'' = Some (validation_source r)"
      by simp
  qed
  show ?thesis
    by (intro conjI) (rule es fm av ns nm vs resp)+
qed

text \<open>
  Claim C5. When \<open>is_validated\<close> is truthy and the enrichment search returns \<^verbatim>\<open>None\<close>
  (no results, a failed search, or no credentials), no merge call is made and the
  validated data are finalised as they are: the submitted record is the validated
  record with the phone rule applied and the slogan removed, every other key keeping
  its value.
\<close>

theorem validated_without_enrichment:
  assumes "py_get (JObj v) ''is_validated'' JNull = Inr iv" and "truthy iv"
    and "enrichment_search w tr (JObj v) = (tr', Inr JNull)"
  shows "final_merge w tr' (JObj v) JNull = (tr', Inr (JObj v)) \<and>
         after_validation w tr i1 i2 (JObj v) = finish w tr' i1 i2 (JObj v) \<and>
         filter is_merge (fst (after_validation w tr i1 i2 (JObj v))) = filter is_merge tr \<and>
         (\<forall>e. finalize (JObj v) = Inl e \<longrightarrow>
            after_validation w tr i1 i2 (JObj v) = (tr', Inl e)) \<and>
         (\<forall>d. finalize (JObj v) = Inr d \<longrightarrow>
            fst (after_validation w tr i1 i2 (JObj v)) =
              tr' @ [AppsScriptPost \<lparr>action = ''save'', photo1Base64 = i1, photo2Base64 = i2,
                       extractedData = d\<rparr>] \<and>
            map_of d ''slogan'' = None \<and>
            (\<forall>k. k \<noteq> ''phone'' \<and> k \<noteq> ''slogan'' \<longrightarrow> map_of d k = map_of v k))"
proof -
  have fm: "final_merge w tr' (JObj v) JNull = (tr', Inr (JObj v))"
    by (simp add: final_merge_def)
  have av: "after_validation w tr i1 i2 (JObj v) = finish w tr' i1 i2 (JObj v)"
    by (simp add: after_validation_def assms(3) fm)
  have tr': "filter is_merge tr' = filter is_merge tr"
    using enrichment_search_merges [of w tr "JObj v"] assms(3) by simp
  have nm: "filter is_merge (fst (after_validation w tr i1 i2 (JObj v))) = filter is_merge tr"
    unfolding av finish_trace by (simp add: tr' split: sum.splits)
  have err: "\<forall>e. finalize (JObj v) = Inl e \<longrightarrow>
      after_validation w tr i1 i2 (JObj v) = (tr', Inl e)"
    unfolding av by (simp add: finish_def)
  have ok: "\<forall>d. finalize (JObj v) = Inr d \<longrightarrow>
            fst (after_validation w tr i1 i2 (JObj v)) =
              tr' @ [AppsScriptPost \<lparr>action = ''save'', photo1Base64 = i1, photo2Base64 = i2,
                       extractedData = d\<rparr>] \<and>
            map_of d ''slogan'' = None \<and>
            (\<forall>k. k \<noteq> ''phone'' \<and> k \<noteq> ''slogan'' \<longrightarrow> map_of d k = map_of v k)"
  proof (intro allI impI conjI)
    fix d assume d: "finalize (JObj v) = Inr d"
    show "fst (after_validation w tr i1 i2 (JObj v)) =
              tr' @ [AppsScriptPost \<lparr>action = ''save'', photo1Base64 = i1, photo2Base64 = i2,
                       extractedData = d\<rparr>]"
      unfolding av finish_trace by (simp add: d)
    show "map_of d ''slogan'' = None" by (rule finalize_no_slogan [OF d])
    fix k assume "k \<noteq> ''phone'' \<and> k \<noteq> ''slogan''"
    then show "map_of d k = map_of v k" using finalize_other_keys [OF d] by simp
  qed
  show ?thesis
    by (intro conjI) (rule fm av nm err ok)+
qed

theorem rejected_skips_enrichment_witness:
  "py_get (JObj acme_rejected) ''is_validated'' JNull = Inr (JBool False) \<and>
   \<not> truthy (JBool False) \<and>
   enrichment_search rejected_world validated_calls (JObj acme_rejected) =
     (validated_calls, Inr JNull) \<and>
   filter is_search (fst (after_validation rejected_world validated_calls ''AAAA'' []
     (JObj acme_rejected))) = filter is_search validated_calls"
proof -
  have iv: "py_get (JObj acme_rejected) ''is_validated'' JNull = Inr (JBool False)"
    by (simp add: py_get_def acme_rejected_def acme_ocr_def)
  have nt: "\<not> truthy (JBool False)"
    by simp
  note r = rejected_skips_enrichment [OF iv nt, of rejected_world validated_calls "''AAAA''" "[]"]
  note a = r [THEN conjunct1]
  note b = r [THEN conjunct2, THEN conjunct2, THEN conjunct2, THEN conjunct1]
  show ?thesis
    by (intro conjI) (rule iv nt a b)+
qed

text \<open>
  Claim C4 as stated fails in its last part: nothing in the handler empties
  \<open>validation_source\<close>. The validation reply below has \<open>is_validated\<close> false and names a
  source; the run succeeds and the response carries that source.
\<close>

theorem rejected_source_counterexample:
  "json_loads rejected_world rejected_text = Some (JObj acme_rejected) \<and>
   py_get (JObj acme_rejected) ''is_validated'' JNull = Inr (JBool False) \<and>
   snd (perform_ocr rejected_world acme_request) = Inr rejected_response \<and>
   validation_source rejected_response = ''https://acme.example''"
  by (simp add: run_defs example_defs call_defs Let_def)

theorem validated_without_enrichment_witness:
  "py_get (JObj acme_validated) ''is_validated'' JNull = Inr (JBool True) \<and>
   truthy (JBool True) \<and>
   enrichment_search unenriched_world validated_calls (JObj acme_validated) =
     (validated_calls @ [GoogleSearch (JStr contact_text) 3], Inr JNull) \<and>
   finalize (JObj acme_validated) = Inr unenriched_final \<and>
   fst (after_validation unenriched_world validated_calls ''AAAA'' [] (JObj acme_validated)) =
     validated_calls @ [GoogleSearch (JStr contact_text) 3,
       AppsScriptPost \<lparr>action = ''save'', photo1Base64 = ''AAAA'', photo2Base64 = [],
         extractedData = unenriched_final\<rparr>]"
proof -
  have iv: "py_get (JObj acme_validated) ''is_validated'' JNull = Inr (JBool True)"
    by (simp add: py_get_def acme_validated_def acme_ocr_def)
  have es: "enrichment_search unenriched_world validated_calls (JObj acme_validated) =
     (validated_calls @ [GoogleSearch (JStr contact_text) 3], Inr JNull)"
    by (simp add: run_defs example_defs call_defs Let_def)
  have fin: "finalize (JObj acme_validated) = Inr unenriched_final"
    by (simp add: run_defs example_defs call_defs)
  have tt: "truthy (JBool True)"
    by simp
  note r = validated_without_enrichment [OF iv tt es, of "''AAAA''" "[]"]
  note d = r [THEN conjunct2, THEN conjunct2, THEN conjunct2, THEN conjunct2, rule_format,
    OF fin, THEN conjunct1]
  have sent: "fst (after_validation unenriched_world validated_calls ''AAAA'' []
      (JObj acme_validated)) =
     validated_calls @ [GoogleSearch (JStr contact_text) 3,
       AppsScriptPost \<lparr>action = ''save'', photo1Base64 = ''AAAA'', photo2Base64 = [],
         extractedData = unenriched_final\<rparr>]"
    using d by simp
  show ?thesis
    by (intro conjI) (rule iv tt es fin sent)+
qed

section \<open>Search failures\<close>

lemma search_items_swallowed:
  "snd (search_google w tr q n) =
     (if google_configured w
      then (case search_items (requests_get w tr (GoogleSearch q n)) of Inl e \<Rightarrow> JNull | Inr r \<Rightarrow> r)
      else JNull)"
  by (simp add: search_google_def Let_def)

text \<open>
  Claim C8, amended. Without credentials \<^verbatim>\<open>search_google\<close> sends nothing and returns
  \<^verbatim>\<open>None\<close>; with them it sends one request, and returns \<^verbatim>\<open>None\<close> when the request raises,
  when the status is 4xx or 5xx, when the body cannot be decoded, when the decoded
  object has no \<open>items\<close> or an empty list of them, and in general whenever anything in
  its \<^verbatim>\<open>try\<close> block raises. The function has no exceptional result, and the enrichment
  search of a validated object never fails, whatever the search service does.
\<close>

theorem search_failures_swallowed:
  "(\<not> google_configured w \<longrightarrow> search_google w tr q n = (tr, JNull)) \<and>
   (google_configured w \<longrightarrow> fst (search_google w tr q n) = tr @ [GoogleSearch q n]) \<and>
   (requests_get w tr (GoogleSearch q n) = Raises \<longrightarrow> snd (search_google w tr q n) = JNull) \<and>
   (\<forall>response. requests_get w tr (GoogleSearch q n) = Returns response \<and>
      ((400 \<le> status_code response \<and> status_code response < 600) \<or>
       json_body response = None \<or>
       (\<exists>kvs. json_body response = Some (JObj kvs) \<and>
          (map_of kvs ''items'' = None \<or> map_of kvs ''items'' = Some (JArr [])))) \<longrightarrow>
      snd (search_google w tr q n) = JNull) \<and>
   (\<forall>e. search_items (requests_get w tr (GoogleSearch q n)) = Inl e \<longrightarrow>
      snd (search_google w tr q n) = JNull) \<and>
   (\<exists>tr' r. enrichment_search w tr (JObj v) = (tr', Inr r))"
proof (intro conjI)
  show "\<not> google_configured w \<longrightarrow> search_google w tr q n = (tr, JNull)"
    by (simp add: search_google_def)
  show "google_configured w \<longrightarrow> fst (search_google w tr q n) = tr @ [GoogleSearch q n]"
    by (simp add: search_google_def Let_def)
  show "requests_get w tr (GoogleSearch q n) = Raises \<longrightarrow> snd (search_google w tr q n) = JNull"
    by (simp add: search_items_swallowed search_items_def)
  show "\<forall>response. requests_get w tr (GoogleSearch q n) = Returns response \<and>
      ((400 \<le> status_code response \<and> status_code response < 600) \<or>
       json_body response = None \<or>
       (\<exists>kvs. json_body response = Some (JObj kvs) \<and>
          (map_of kvs ''items'' = None \<or> map_of kvs ''items'' = Some (JArr [])))) \<longrightarrow>
      snd (search_google w tr q n) = JNull"
    by (auto simp: search_items_swallowed search_items_def raise_for_status_def py_in_def
        py_getitem_def py_len_def)
  show "\<forall>e. search_items (requests_get w tr (GoogleSearch q n)) = Inl e \<longrightarrow>
      snd (search_google w tr q n) = JNull"
    by (auto simp: search_items_swallowed)
  show "\<exists>tr' r. enrichment_search w tr (JObj v) = (tr', Inr r)"
    by (cases "search_google w tr (JStr (contact_query w
          (case map_of v ''company'' of None \<Rightarrow> JNull | Some x \<Rightarrow> x))) 3")
       (simp add: enrichment_search_def py_get_def)
qed

theorem search_failures_swallowed_witness:
  "requests_get search_down_world [] (GoogleSearch (JStr ''Acme'') 3) =
     Returns \<lparr>status_code = 503, json_body = Some (JObj [(''items'', acme_items)])\<rparr> \<and>
   search_google search_down_world [] (JStr ''Acme'') 3 = ([GoogleSearch (JStr ''Acme'') 3], JNull)"
proof -
  have g: "requests_get search_down_world [] (GoogleSearch (JStr ''Acme'') 3) =
     Returns \<lparr>status_code = 503, json_body = Some (JObj [(''items'', acme_items)])\<rparr>"
    by (simp add: search_down_world_def world_of_def unavailable_def)
  have c: "google_configured search_down_world"
    by (simp add: search_down_world_def world_of_def)
  from search_failures_swallowed [of search_down_world "[]" "JStr ''Acme''" 3 "[]"] g c
  have "fst (search_google search_down_world [] (JStr ''Acme'') 3) = [GoogleSearch (JStr ''Acme'') 3]"
    and "snd (search_google search_down_world [] (JStr ''Acme'') 3) = JNull"
    by simp_all
  with g show ?thesis by (simp add: prod_eq_iff)
qed

text \<open>
  Claim C8 as stated fails for a status that is neither 2xx nor an error: the search
  answers 300 with a result list, \<^verbatim>\<open>raise_for_status\<close> does not raise, and the list is
  returned as evidence.
\<close>

theorem search_status_300_counterexample:
  "requests_get search_300_world [] (GoogleSearch (JStr ''Acme'') 3) =
     Returns \<lparr>status_code = 300, json_body = Some (JObj [(''items'', acme_items)])\<rparr> \<and>
   search_google search_300_world [] (JStr ''Acme'') 3 =
     ([GoogleSearch (JStr ''Acme'') 3], acme_items) \<and>
   acme_items \<noteq> JNull"
  by (simp add: search_300_world_def world_of_def found_300_def search_google_def
      search_items_def raise_for_status_def py_in_def py_getitem_def py_len_def acme_items_def Let_def)

section \<open>The extraction reply\<close>

lemma split_str_nonempty: "split_str sep s \<noteq> []"
  by (induction sep s rule: split_str.induct) (auto split: list.splits)

lemma split_str_no_occurrence: "sep \<noteq> [] \<Longrightarrow> \<not> contains sep s \<Longrightarrow> split_str sep s = [s]"
  by (induction s) auto

lemma split_str_single_two:
  "c \<in> set s \<Longrightarrow> \<exists>a p r. split_str [c] s = a # p # r"
proof (induction s)
  case Nil
  then show ?case by simp
next
  case (Cons x s)
  show ?case
  proof (cases "x = c")
    case True
    obtain p r where "split_str [c] s = p # r"
      using split_str_nonempty [of "[c]" s] by (cases "split_str [c] s") auto
    with True show ?thesis by simp
  next
    case False
    with Cons.prems have "c \<in> set s" by simp
    from Cons.IH [OF this] obtain a p r where "split_str [c] s = a # p # r" by blast
    with False show ?thesis by simp
  qed
qed

lemma normalize_image1_total: "\<exists>p. normalize_image1 s = Inr p"
proof (cases "contains comma s")
  case True
  then have "CHR '','' \<in> set s" by (simp add: comma_def contains_single)
  from split_str_single_two [OF this] obtain a p r where "split_str comma s = a # p # r"
    by (auto simp: comma_def)
  with True show ?thesis by (simp add: normalize_image1_def)
next
  case False
  then show ?thesis by (simp add: normalize_image1_def)
qed

lemma normalize_image2_total: "\<exists>p. normalize_image2 s = Inr p"
proof (cases s)
  case None
  then show ?thesis by (simp add: normalize_image2_def)
next
  case (Some b)
  from normalize_image1_total [of b] obtain p where "normalize_image1 b = Inr p" ..
  with Some show ?thesis
    by (auto simp: normalize_image2_def normalize_image1_def split: if_splits)
qed

lemma not_object_fails:
  assumes "\<forall>kvs. v \<noteq> JObj kvs"
  shows "after_extraction w tr i1 i2 v = (tr, Inl AttributeError)"
proof -
  have "py_get v ''company'' (JStr []) = Inl AttributeError"
    using assms by (cases v) (simp_all add: py_get_def)
  then show ?thesis
    by (simp add: after_extraction_def build_search_query_def)
qed

section \<open>Finalisation of every mapping\<close>

text \<open>
  Claim C3, amended. For every final mapping. A phone that is a string passes
  finalisation: with exactly one apostrophe in front when it starts with a plus sign,
  and with the whole mapping unchanged otherwise, so an empty phone stays empty; the
  phone rule changes the value of no other key, nor the order of the keys, and the
  removal of the slogan does not touch the phone. A phone that is missing, null or
  otherwise falsy leaves the mapping unchanged. A phone that is truthy and not a string,
  such as a JSON number, is not left unchanged: the rule raises, finalisation fails and
  the run ends there with no further call.
\<close>

theorem escape_phone_rule:
  "(\<forall>s. map_of d ''phone'' = Some (JStr s) \<longrightarrow>
      (\<exists>d' d''. escape_phone (JObj d) = Inr d' \<and> finalize (JObj d) = Inr d'' \<and>
         map_of d' ''phone'' = Some (JStr (if prefix ''+'' s then [CHR 0x27] @ s else s)) \<and>
         (\<not> prefix ''+'' s \<longrightarrow> d' = d) \<and>
         map_of d'' ''phone'' = map_of d' ''phone'' \<and>
         (\<forall>k. k \<noteq> ''phone'' \<longrightarrow> map_of d' k = map_of d k) \<and>
         map fst d' = map fst d)) \<and>
   (map_of d ''phone'' = None \<or> (\<exists>v. map_of d ''phone'' = Some v \<and> \<not> truthy v) \<longrightarrow>
      escape_phone (JObj d) = Inr d \<and> finalize (JObj d) = Inr (remove_slogan d)) \<and>
   (\<forall>v. map_of d ''phone'' = Some v \<and> truthy v \<and> (\<forall>s. v \<noteq> JStr s) \<longrightarrow>
      escape_phone (JObj d) = Inl AttributeError \<and> finalize (JObj d) = Inl AttributeError \<and>
      finish w tr i1 i2 (JObj d) = (tr, Inl AttributeError))"
proof (intro conjI allI impI)
  fix s assume "map_of d ''phone'' = Some (JStr s)"
  then show "\<exists>d' d''. escape_phone (JObj d) = Inr d' \<and> finalize (JObj d) = Inr d'' \<and>
         map_of d' ''phone'' = Some (JStr (if prefix ''+'' s then [CHR 0x27] @ s else s)) \<and>
         (\<not> prefix ''+'' s \<longrightarrow> d' = d) \<and>
         map_of d'' ''phone'' = map_of d' ''phone'' \<and>
         (\<forall>k. k \<noteq> ''phone'' \<longrightarrow> map_of d' k = map_of d k) \<and>
         map fst d' = map fst d"
    by (auto simp: escape_phone_def finalize_def remove_slogan_def update_conv' map_fst_update)
next
  assume a: "map_of d ''phone'' = None \<or> (\<exists>v. map_of d ''phone'' = Some v \<and> \<not> truthy v)"
  then show e: "escape_phone (JObj d) = Inr d"
    by (auto simp: escape_phone_def split: json.splits)
  then show "finalize (JObj d) = Inr (remove_slogan d)"
    by (simp add: finalize_def)
next
  fix v assume a: "map_of d ''phone'' = Some v \<and> truthy v \<and> (\<forall>s. v \<noteq> JStr s)"
  then show e: "escape_phone (JObj d) = Inl AttributeError"
    by (auto simp: escape_phone_def split: json.splits)
  then show f: "finalize (JObj d) = Inl AttributeError"
    by (simp add: finalize_def)
  then show "finish w tr i1 i2 (JObj d) = (tr, Inl AttributeError)"
    by (simp add: finish_def)
qed

theorem escape_phone_rule_witness:
  "map_of [(''name'', JStr ''Ann''), (''phone'', JStr ''+14155551234'')] ''phone'' =
     Some (JStr ''+14155551234'') \<and>
   (\<exists>d' d''. escape_phone (JObj [(''name'', JStr ''Ann''), (''phone'', JStr ''+14155551234'')]) = Inr d' \<and>
      finalize (JObj [(''name'', JStr ''Ann''), (''phone'', JStr ''+14155551234'')]) = Inr d'' \<and>
      map_of d' ''phone'' = Some (JStr (CHR 0x27 # ''+14155551234'')) \<and>
      map_of d'' ''phone'' = map_of d' ''phone'' \<and>
      (\<forall>k. k \<noteq> ''phone'' \<longrightarrow>
         map_of d' k = map_of [(''name'', JStr ''Ann''), (''phone'', JStr ''+14155551234'')] k) \<and>
      map fst d' = [''name'', ''phone'']) \<and>
   map_of [(''name'', JStr ''Ann''), (''phone'', JStr ''4155551234'')] ''phone'' =
     Some (JStr ''4155551234'') \<and>
   escape_phone (JObj [(''name'', JStr ''Ann''), (''phone'', JStr ''4155551234'')]) =
     Inr [(''name'', JStr ''Ann''), (''phone'', JStr ''4155551234'')] \<and>
   map_of [(''name'', JStr ''Ann'')] ''phone'' = None \<and>
   escape_phone (JObj [(''name'', JStr ''Ann'')]) = Inr [(''name'', JStr ''Ann'')] \<and>
   map_of [(''name'', JStr ''Ann''), (''phone'', JInt 4155551234)] ''phone'' =
     Some (JInt 4155551234) \<and>
   truthy (JInt 4155551234) \<and>
   finalize (JObj [(''name'', JStr ''Ann''), (''phone'', JInt 4155551234)]) = Inl AttributeError"
proof -
  let ?plus = "[(''name'', JStr ''Ann''), (''phone'', JStr ''+14155551234'')]"
  let ?digits = "[(''name'', JStr ''Ann''), (''phone'', JStr ''4155551234'')]"
  let ?none = "[(''name'', JStr ''Ann'')]"
  let ?number = "[(''name'', JStr ''Ann''), (''phone'', JInt 4155551234)]"
  have plus: "map_of ?plus ''phone'' = Some (JStr ''+14155551234'')"
    by simp
  have digits: "map_of ?digits ''phone'' = Some (JStr ''4155551234'')"
    by simp
  have none: "map_of ?none ''phone'' = None"
    by simp
  have number: "map_of ?number ''phone'' = Some (JInt 4155551234)"
    by simp
  have tr: "truthy (JInt 4155551234)"
    by simp
  have escaped: "\<exists>d' d''. escape_phone (JObj ?plus) = Inr d' \<and>
      finalize (JObj ?plus) = Inr d'' \<and>
      map_of d' ''phone'' = Some (JStr (CHR 0x27 # ''+14155551234'')) \<and>
      map_of d'' ''phone'' = map_of d' ''phone'' \<and>
      (\<forall>k. k \<noteq> ''phone'' \<longrightarrow> map_of d' k = map_of ?plus k) \<and>
      map fst d' = [''name'', ''phone'']"
    using escape_phone_rule [of ?plus, THEN conjunct1, rule_format, OF plus] by simp
  have kept: "escape_phone (JObj ?digits) = Inr ?digits"
    using escape_phone_rule [of ?digits, THEN conjunct1, rule_format, OF digits] by auto
  have absent: "escape_phone (JObj ?none) = Inr ?none"
    using escape_phone_rule [of ?none, THEN conjunct2, THEN conjunct1] none by simp
  have raised: "finalize (JObj ?number) = Inl AttributeError"
    using escape_phone_rule [of ?number, THEN conjunct2, THEN conjunct2, rule_format,
      of "JInt 4155551234"] number by simp
  show ?thesis
    by (intro conjI) (rule plus digits none number tr escaped kept absent raised)+
qed

text \<open>
  Claim C3 as stated fails for a phone that does not start with a plus sign but is no
  string: the validation reply gives the phone as the number 4155551234, the phone rule
  raises on it, and the request fails with status 500 after the validation call.
\<close>

theorem numeric_phone_counterexample:
  "json_loads numeric_phone_world numeric_phone_text = Some (JObj numeric_phone_reply) \<and>
   map_of numeric_phone_reply ''phone'' = Some (JInt 4155551234) \<and>
   finalize (JObj numeric_phone_reply) = Inl AttributeError \<and>
   perform_ocr numeric_phone_world acme_request =
     (validated_calls, Inl (HTTPException 500 (ProcessingError AttributeError)))"
  by (simp add: run_defs example_defs call_defs numeric_phone_world_def numeric_phone_text_def
      numeric_phone_reply_def Let_def)

section \<open>Fenced replies\<close>

lemma prefix_within: "length sep \<le> length u \<Longrightarrow> prefix sep (u @ z) \<Longrightarrow> prefix sep u"
  by (auto simp: prefix_append)

lemma contains_Nil: "contains [] t"
  by (cases t) simp_all

lemma contains_append: "contains sep a \<Longrightarrow> contains sep (a @ t)"
proof (induction a)
  case Nil
  then show ?case by (simp add: contains_Nil)
next
  case (Cons x a)
  from Cons.prems have "prefix sep (x # a) \<or> contains sep a" by simp
  then show ?case
  proof
    assume "prefix sep (x # a)"
    then have "prefix sep ((x # a) @ t)" by (rule prefix_prefix)
    then show ?thesis by simp
  next
    assume "contains sep a"
    then have "contains sep (a @ t)" by (rule Cons.IH)
    then show ?thesis by simp
  qed
qed

lemma butlast_last_append: "sep \<noteq> [] \<Longrightarrow> butlast sep @ last sep # t = sep @ t"
  by (cases sep rule: rev_cases) simp_all

lemma split_str_first:
  "sep \<noteq> [] \<Longrightarrow> \<not> contains sep (a @ butlast sep) \<Longrightarrow>
     split_str sep (a @ sep @ t) = a # split_str sep t"
proof (induction a)
  case Nil
  then obtain s ss where sep: "sep = s # ss" by (cases sep) auto
  then show ?case by simp
next
  case (Cons x a)
  from Cons.prems have np: "\<not> prefix sep (x # a @ butlast sep)"
    and nc: "\<not> contains sep (a @ butlast sep)"
    by simp_all
  have eq: "x # a @ sep @ t = (x # a @ butlast sep) @ (last sep # t)"
    using Cons.prems(1) by (simp add: butlast_last_append)
  have len: "length sep \<le> length (x # a @ butlast sep)"
    by simp
  have "\<not> prefix sep (x # a @ sep @ t)"
  proof
    assume "prefix sep (x # a @ sep @ t)"
    then have "prefix sep ((x # a @ butlast sep) @ (last sep # t))"
      unfolding eq .
    with len have "prefix sep (x # a @ butlast sep)" by (rule prefix_within)
    with np show False ..
  qed
  moreover have "split_str sep (a @ sep @ t) = a # split_str sep t"
    using Cons.prems(1) nc by (rule Cons.IH)
  ultimately show ?case by simp
qed

lemma hd_split_skip:
  "\<not> prefix sep (x # xs) \<Longrightarrow> hd (split_str sep (x # xs)) = x # hd (split_str sep xs)"
  using split_str_nonempty [of sep xs] by (cases "split_str sep xs") auto

lemma hd_split_hit:
  "sep \<noteq> [] \<Longrightarrow> prefix sep (x # xs) \<Longrightarrow> hd (split_str sep (x # xs)) = []"
  by simp

lemma fence_json_is_fence: "prefix fence_json u \<Longrightarrow> prefix fence u"
proof -
  assume "prefix fence_json u"
  moreover have "prefix fence fence_json" by (simp add: fence_def fence_json_def)
  ultimately show ?thesis by (rule prefix_order.trans [rotated])
qed

lemma contains_fence_json: "contains fence_json s \<Longrightarrow> contains fence s"
proof (induction s)
  case Nil
  then show ?case by (simp add: fence_json_def)
next
  case (Cons x s)
  from Cons.prems have "prefix fence_json (x # s) \<or> contains fence_json s" by simp
  then show ?case
  proof
    assume "prefix fence_json (x # s)"
    then have "prefix fence (x # s)" by (rule fence_json_is_fence)
    then show ?thesis by simp
  next
    assume "contains fence_json s"
    then have "contains fence s" by (rule Cons.IH)
    then show ?thesis by simp
  qed
qed

lemma inner_of_block:
  assumes "\<not> contains fence (body @ ''``'')" and "\<not> prefix ''`'' post"
  shows "\<exists>v. hd (split_str fence_json (body @ fence @ post)) = body @ v \<and>
           (v = [] \<or> prefix fence v)"
  using assms(1)
proof (induction body)
  case Nil
  have f: "fence @ post = CHR ''`'' # CHR ''`'' # CHR ''`'' # post"
    by (simp add: fence_def)
  show ?case
  proof (cases "prefix ''json'' post")
    case True
    then have "prefix fence_json (CHR ''`'' # CHR ''`'' # CHR ''`'' # post)"
      by (simp add: fence_json_def)
    then have "hd (split_str fence_json (CHR ''`'' # CHR ''`'' # CHR ''`'' # post)) = []"
      by (intro hd_split_hit) (simp_all add: fence_json_def)
    then have "hd (split_str fence_json (fence @ post)) = []"
      by (simp only: f)
    then show ?thesis by simp
  next
    case False
    then have n1: "\<not> prefix fence_json (CHR ''`'' # CHR ''`'' # CHR ''`'' # post)"
      by (simp add: fence_json_def)
    have n2: "\<not> prefix fence_json (CHR ''`'' # CHR ''`'' # post)"
      using assms(2) by (cases post) (auto simp: fence_json_def)
    have n3: "\<not> prefix fence_json (CHR ''`'' # post)"
      using assms(2) by (cases post) (auto simp: fence_json_def)
    have "hd (split_str fence_json (CHR ''`'' # CHR ''`'' # CHR ''`'' # post)) =
        CHR ''`'' # CHR ''`'' # CHR ''`'' # hd (split_str fence_json post)"
      by (simp only: hd_split_skip [OF n1] hd_split_skip [OF n2] hd_split_skip [OF n3])
    then have "hd (split_str fence_json (fence @ post)) =
        CHR ''`'' # CHR ''`'' # CHR ''`'' # hd (split_str fence_json post)"
      by (simp only: f)
    moreover have "prefix fence (CHR ''`'' # CHR ''`'' # CHR ''`'' # hd (split_str fence_json post))"
      by (simp add: fence_def)
    ultimately show ?thesis by simp
  qed
next
  case (Cons x body)
  from Cons.prems have np: "\<not> prefix fence (x # body @ ''``'')"
    and nc: "\<not> contains fence (body @ ''``'')"
    by simp_all
  have eq: "x # body @ fence @ post = (x # body @ ''``'') @ (''`'' @ post)"
    by (simp add: fence_def)
  have len: "length fence \<le> length (x # body @ ''``'')"
    by (simp add: fence_def)
  have "\<not> prefix fence (x # body @ fence @ post)"
  proof
    assume "prefix fence (x # body @ fence @ post)"
    then have "prefix fence ((x # body @ ''``'') @ (''`'' @ post))"
      unfolding eq .
    with len have "prefix fence (x # body @ ''``'')" by (rule prefix_within)
    with np show False ..
  qed
  then have "\<not> prefix fence_json (x # body @ fence @ post)"
    using fence_json_is_fence by blast
  then have h: "hd (split_str fence_json (x # (body @ fence @ post))) =
      x # hd (split_str fence_json (body @ fence @ post))"
    by (rule hd_split_skip)
  from Cons.IH [OF nc] obtain v
    where hv: "hd (split_str fence_json (body @ fence @ post)) = body @ v"
      and v: "v = [] \<or> prefix fence v"
    by blast
  have "hd (split_str fence_json ((x # body) @ fence @ post)) = (x # body) @ v"
    by (simp only: append_Cons h hv)
  with v show ?case by blast
qed

lemma body_of_inner:
  assumes "\<not> contains fence (body @ ''``'')" and "v = [] \<or> prefix fence v"
  shows "\<exists>ps. split_str fence (body @ v) = body # ps"
  using assms(2)
proof
  assume "v = []"
  moreover have "\<not> contains fence body"
    using assms(1) contains_append by blast
  ultimately show ?thesis
    by (simp add: split_str_no_occurrence fence_def)
next
  assume "prefix fence v"
  then obtain v' where v: "v = fence @ v'" by (auto simp: prefix_def)
  have "split_str fence (body @ fence @ v') = body # split_str fence v'"
    using assms(1) by (intro split_str_first) (simp_all add: fence_def)
  with v show ?thesis by simp
qed

lemma parse_block:
  assumes a: "\<not> contains fence_json (pre @ ''```jso'')"
    and b: "\<not> contains fence (body @ ''``'')" and c: "\<not> prefix ''`'' post"
  shows "parse_openai_json w (Some (pre @ fence_json @ body @ fence @ post)) =
           loads w (Some (py_strip body))"
proof -
  let ?rest = "body @ fence @ post"
  have s1: "split_str fence_json (pre @ fence_json @ ?rest) = pre # split_str fence_json ?rest"
    using a by (intro split_str_first) (simp_all add: fence_json_def)
  obtain p ps where s2: "split_str fence_json ?rest = p # ps"
    using split_str_nonempty [of fence_json ?rest] by (cases "split_str fence_json ?rest") auto
  from inner_of_block [OF b c] s2 obtain v where p: "p = body @ v"
    and v: "v = [] \<or> prefix fence v"
    by auto
  from body_of_inner [OF b v] p obtain qs where s3: "split_str fence p = body # qs"
    by auto
  have "prefix fence_json (fence_json @ ?rest)" by simp
  then have "contains fence_json (fence_json @ ?rest)"
    by (cases "fence_json @ ?rest") (simp_all add: fence_json_def)
  then have "contains fence_json (pre @ fence_json @ ?rest)"
    by (induction pre) simp_all
  then show ?thesis
    unfolding parse_openai_json_def by (simp add: s1 s2 s3)
qed

lemma parse_open_block:
  assumes a: "\<not> contains fence_json (pre @ ''```jso'')" and b: "\<not> contains fence body"
  shows "parse_openai_json w (Some (pre @ fence_json @ body)) = loads w (Some (py_strip body))"
proof -
  have s1: "split_str fence_json (pre @ fence_json @ body) = pre # split_str fence_json body"
    using a by (intro split_str_first) (simp_all add: fence_json_def)
  have "\<not> contains fence_json body"
    using b contains_fence_json by blast
  then have s2: "split_str fence_json body = [body]"
    by (simp add: split_str_no_occurrence fence_json_def)
  have s3: "split_str fence body = [body]"
    using b by (simp add: split_str_no_occurrence fence_def)
  have "prefix fence_json (fence_json @ body)" by simp
  then have "contains fence_json (fence_json @ body)"
    by (cases "fence_json @ body") (simp_all add: fence_json_def)
  then have "contains fence_json (pre @ fence_json @ body)"
    by (induction pre) simp_all
  then show ?thesis
    unfolding parse_openai_json_def by (simp add: s1 s2 s3)
qed


text \<open>
  Claim C6, amended. What is parsed is the text between the first JSON marker of the
  reply and the first fence after it, stripped of surrounding white space: for a reply
  made of any text in which no JSON marker starts, the marker, a body in which no
  fence starts, a fence and any text that does not begin with a backquote, it is the
  stripped body; likewise when no fence follows the marker at all. So both fences of a
  block are stripped when its body holds no fence, and a body that holds one is cut
  there. A reply without the marker is parsed as it is, and a text that
  \<^verbatim>\<open>json.loads\<close> rejects raises. And whenever the extraction step ends in anything but
  a JSON object (the call raised, the content was missing, the text did not decode, or
  it decoded to a value that is no object), the request fails with status 500 after that
  one call: nothing is submitted and no record is returned.
\<close>

theorem fenced_reply_parsed:
  "(\<not> contains fence_json (pre @ ''```jso'') \<and> \<not> contains fence (body @ ''``'') \<and>
    \<not> prefix ''`'' post \<longrightarrow>
      parse_openai_json w (Some (pre @ fence_json @ body @ fence @ post)) =
        loads w (Some (py_strip body))) \<and>
   (\<not> contains fence_json (pre @ ''```jso'') \<and> \<not> contains fence body \<longrightarrow>
      parse_openai_json w (Some (pre @ fence_json @ body)) = loads w (Some (py_strip body))) \<and>
   (\<forall>c. \<not> contains fence_json c \<longrightarrow> parse_openai_json w (Some c) = loads w (Some c)) \<and>
   (\<forall>c. json_loads w c = None \<longrightarrow> loads w (Some c) = Inl JSONDecodeError) \<and>
   (\<exists>i1 i2. normalize_image1 (base64Image1 req) = Inr i1 \<and>
      normalize_image2 (base64Image2 req) = Inr i2 \<and>
      (\<forall>tr x. extraction w [] i1 i2 = (tr, x) \<and> (\<forall>kvs. x \<noteq> Inr (JObj kvs)) \<longrightarrow>
         filter is_post tr = [] \<and>
         (\<exists>e. perform_ocr w req = (tr, Inl (HTTPException 500 (ProcessingError e))))))"
proof (intro conjI)
  show "\<not> contains fence_json (pre @ ''```jso'') \<and> \<not> contains fence (body @ ''``'') \<and>
    \<not> prefix ''`'' post \<longrightarrow>
      parse_openai_json w (Some (pre @ fence_json @ body @ fence @ post)) =
        loads w (Some (py_strip body))"
    using parse_block by blast
  show "\<not> contains fence_json (pre @ ''```jso'') \<and> \<not> contains fence body \<longrightarrow>
      parse_openai_json w (Some (pre @ fence_json @ body)) = loads w (Some (py_strip body))"
    using parse_open_block by blast
  show "\<forall>c. \<not> contains fence_json c \<longrightarrow> parse_openai_json w (Some c) = loads w (Some c)"
    by (simp add: parse_openai_json_def)
  show "\<forall>c. json_loads w c = None \<longrightarrow> loads w (Some c) = Inl JSONDecodeError"
    by (simp add: loads_def)
  obtain i1 where n1: "normalize_image1 (base64Image1 req) = Inr i1"
    using normalize_image1_total by blast
  obtain i2 where n2: "normalize_image2 (base64Image2 req) = Inr i2"
    using normalize_image2_total by blast
  have fails: "filter is_post tr = [] \<and>
      (\<exists>e. perform_ocr w req = (tr, Inl (HTTPException 500 (ProcessingError e))))"
    if ex: "extraction w [] i1 i2 = (tr, x)" and no: "\<forall>kvs. x \<noteq> Inr (JObj kvs)" for tr x
  proof -
    note h = extraction_shape [OF ex]
    from h have np: "filter is_post tr = []" by simp
    show ?thesis
    proof (cases x)
      case (Inl e)
      with h have "plain e" by simp
      then have "outer_except e = HTTPException 500 (ProcessingError e)"
        by (rule outer_except_plain)
      with Inl ex n1 n2 have "perform_ocr w req = (tr, Inl (HTTPException 500 (ProcessingError e)))"
        by (simp add: perform_ocr_def pipeline_def)
      with np show ?thesis by blast
    next
      case (Inr v)
      with no have "\<forall>kvs. v \<noteq> JObj kvs" by simp
      then have "after_extraction w tr i1 i2 v = (tr, Inl AttributeError)"
        by (rule not_object_fails)
      with Inr ex n1 n2
      have "perform_ocr w req = (tr, Inl (HTTPException 500 (ProcessingError AttributeError)))"
        by (simp add: perform_ocr_def pipeline_def outer_except_def)
      with np show ?thesis by blast
    qed
  qed
  with n1 n2 show "\<exists>i1 i2. normalize_image1 (base64Image1 req) = Inr i1 \<and>
      normalize_image2 (base64Image2 req) = Inr i2 \<and>
      (\<forall>tr x. extraction w [] i1 i2 = (tr, x) \<and> (\<forall>kvs. x \<noteq> Inr (JObj kvs)) \<longrightarrow>
         filter is_post tr = [] \<and>
         (\<exists>e. perform_ocr w req = (tr, Inl (HTTPException 500 (ProcessingError e)))))"
    by (intro exI [of _ i1] exI [of _ i2]) simp
qed

theorem fenced_reply_parsed_witness:
  "\<not> contains fence_json ((''Here is the card:'' @ [CHR 0x0A]) @ ''```jso'') \<and>
   \<not> contains fence (fenced_body @ ''``'') \<and>
   \<not> prefix ''`'' ([CHR 0x0A] @ ''Anything else?'') \<and>
   parse_openai_json acme_world (Some chatty_reply) = Inr (JObj acme_ocr) \<and>
   extraction prose_world [] ''AAAA'' [] =
     ([ChatExtraction [''data:image/jpeg;base64,AAAA'']], Inl JSONDecodeError) \<and>
   (\<exists>e. perform_ocr prose_world acme_request =
      ([ChatExtraction [''data:image/jpeg;base64,AAAA'']],
       Inl (HTTPException 500 (ProcessingError e))))"
proof -
  note t = fenced_reply_parsed [of "''Here is the card:'' @ [CHR 0x0A]" fenced_body
    "[CHR 0x0A] @ ''Anything else?''" acme_world acme_request]
  note u = fenced_reply_parsed [of "[]" "[]" "[]" prose_world acme_request]
  have a: "\<not> contains fence_json ((''Here is the card:'' @ [CHR 0x0A]) @ ''```jso'')"
    by (simp add: fence_json_def)
  have b: "\<not> contains fence (fenced_body @ ''``'')"
    by (simp add: fenced_body_def ocr_text_def fence_def)
  have c: "\<not> prefix ''`'' ([CHR 0x0A] @ ''Anything else?'')"
    by simp
  have ld: "loads acme_world (Some (py_strip fenced_body)) = Inr (JObj acme_ocr)"
    by (simp add: run_defs example_defs)
  from t [THEN conjunct1] a b c
  have "parse_openai_json acme_world (Some ((''Here is the card:'' @ [CHR 0x0A]) @ fence_json @
      fenced_body @ fence @ [CHR 0x0A] @ ''Anything else?'')) =
      loads acme_world (Some (py_strip fenced_body))"
    by blast
  with ld have p: "parse_openai_json acme_world (Some chatty_reply) = Inr (JObj acme_ocr)"
    by (simp only: chatty_reply_def append_assoc)
  have n1: "normalize_image1 (base64Image1 acme_request) = Inr ''AAAA''"
    by (simp add: run_defs example_defs)
  have n2: "normalize_image2 (base64Image2 acme_request) = Inr []"
    by (simp add: run_defs example_defs)
  have ex: "extraction prose_world [] ''AAAA'' [] =
     ([ChatExtraction [''data:image/jpeg;base64,AAAA'']], Inl JSONDecodeError)"
    by (simp add: run_defs example_defs Let_def)
  from u [THEN conjunct2, THEN conjunct2, THEN conjunct2, THEN conjunct2] n1 n2 ex
  have f: "\<exists>e. perform_ocr prose_world acme_request =
      ([ChatExtraction [''data:image/jpeg;base64,AAAA'']],
       Inl (HTTPException 500 (ProcessingError e)))"
    by auto
  show ?thesis
    by (intro conjI) (rule a b c p ex f)+
qed

text \<open>
  Claim C6 as stated fails for a well-formed block whose JSON holds three backquotes
  inside a string: with both fences stripped the text decodes to an object, but the
  handler cuts the body at the inner backquotes, the rest does not decode, and the
  request fails with status 500.
\<close>

theorem inner_fence_counterexample:
  "loads inner_fence_world (Some (py_strip inner_fence_body)) =
     Inr (JObj [(''company'', JStr ''a```b'')]) \<and>
   parse_openai_json inner_fence_world (Some (fence_json @ inner_fence_body @ fence)) =
     Inl JSONDecodeError \<and>
   perform_ocr inner_fence_world acme_request =
     ([ChatExtraction [''data:image/jpeg;base64,AAAA'']],
      Inl (HTTPException 500 (ProcessingError JSONDecodeError)))"
  by (simp add: run_defs example_defs inner_fence_world_def inner_fence_body_def
      inner_fence_text_def Let_def)

section \<open>The submission\<close>

lemma generation_reply_append:
  "generation_reply w before (xs @ ys) latest =
     generation_reply w (before @ xs) ys (generation_reply w before xs latest)"
  by (induction xs arbitrary: before latest) simp_all

lemma final_data_of_snoc:
  "final_data_of w (xs @ [c]) =
     (case c of
        ChatValidation d g \<Rightarrow> decoded_reply w xs c
      | ChatMerge v g \<Rightarrow> decoded_reply w xs c
      | _ \<Rightarrow> final_data_of w xs)"
  by (simp add: final_data_of_def generation_reply_append split: call.splits)

lemma final_data_of_search: "final_data_of w (xs @ [GoogleSearch q n]) = final_data_of w xs"
  by (simp add: final_data_of_snoc)

lemma validation_decoded:
  "validation w tr d g = (t, Inr v) \<Longrightarrow>
     t = tr @ [ChatValidation d g] \<and> decoded_reply w tr (ChatValidation d g) = Some v"
  by (auto simp: validation_def decoded_reply_def Let_def split: outcome.splits)

lemma final_merge_decoded:
  "final_merge w tr v r = (t, Inr fd) \<Longrightarrow>
     (t = tr \<and> fd = v) \<or>
     (t = tr @ [ChatMerge v r] \<and> decoded_reply w tr (ChatMerge v r) = Some fd)"
  by (auto simp: final_merge_def decoded_reply_def Let_def split: if_splits outcome.splits)

lemma search_google_trace:
  "fst (search_google w tr q n) = tr \<or> fst (search_google w tr q n) = tr @ [GoogleSearch q n]"
  by (simp add: search_google_def Let_def)

lemma enrichment_search_trace:
  "enrichment_search w tr v = (t, x) \<Longrightarrow> t = tr \<or> (\<exists>q. t = tr @ [GoogleSearch q 3])"
proof (cases "py_get v ''is_validated'' JNull")
  case (Inl e)
  then show "enrichment_search w tr v = (t, x) \<Longrightarrow> ?thesis"
    by (simp add: enrichment_search_def)
next
  case iv: (Inr iv)
  show "enrichment_search w tr v = (t, x) \<Longrightarrow> ?thesis"
  proof (cases "py_get v ''company'' JNull")
    case (Inl e)
    with iv show "enrichment_search w tr v = (t, x) \<Longrightarrow> ?thesis"
      by (simp add: enrichment_search_def split: if_splits)
  next
    case (Inr c)
    obtain t' r where sg: "search_google w tr (JStr (contact_query w c)) 3 = (t', r)"
      by (cases "search_google w tr (JStr (contact_query w c)) 3")
    with search_google_trace [of w tr "JStr (contact_query w c)" 3]
    have "t' = tr \<or> t' = tr @ [GoogleSearch (JStr (contact_query w c)) 3]" by simp
    with iv Inr sg show "enrichment_search w tr v = (t, x) \<Longrightarrow> ?thesis"
      by (auto simp: enrichment_search_def split: if_splits)
  qed
qed

lemma finish_sent:
  assumes "finish w tr i1 i2 fd = (t, res)" and "AppsScriptPost p \<in> set t"
    and "filter is_post tr = []"
  shows "t = tr @ [AppsScriptPost p] \<and> finalize fd = Inr (extractedData p)"
proof (cases "finalize fd")
  case (Inl e)
  with assms(1) have "t = tr" using finish_trace [of w tr i1 i2 fd] by simp
  with assms(2,3) have False by (auto simp: filter_empty_conv)
  then show ?thesis ..
next
  case (Inr d)
  with assms(1) have t: "t = tr @ [AppsScriptPost \<lparr>action = ''save'', photo1Base64 = i1,
      photo2Base64 = i2, extractedData = d\<rparr>]"
    using finish_trace [of w tr i1 i2 fd] by simp
  have "AppsScriptPost p \<notin> set tr"
    using assms(3) by (auto simp: filter_empty_conv)
  with assms(2) t have "p = \<lparr>action = ''save'', photo1Base64 = i1, photo2Base64 = i2,
      extractedData = d\<rparr>"
    by auto
  with t Inr show ?thesis by simp
qed

lemma after_validation_sent:
  assumes av: "after_validation w (tr @ [ChatValidation d g]) i1 i2 v = (t, res)"
    and dec: "decoded_reply w tr (ChatValidation d g) = Some v"
    and m: "AppsScriptPost p \<in> set t" and np: "filter is_post tr = []"
  shows "\<exists>t0 fd. t = t0 @ [AppsScriptPost p] \<and> final_data_of w t0 = Some fd \<and>
           finalize fd = Inr (extractedData p)"
proof -
  let ?tv = "tr @ [ChatValidation d g]"
  have fv: "final_data_of w ?tv = Some v"
    by (simp add: final_data_of_snoc dec)
  have npv: "filter is_post ?tv = []"
    using np by simp
  obtain t1 x1 where s1: "enrichment_search w ?tv v = (t1, x1)"
    by (cases "enrichment_search w ?tv v")
  from enrichment_search_shape [OF s1] npv have np1: "filter is_post t1 = []" by simp
  have f1: "final_data_of w t1 = Some v"
  proof -
    from enrichment_search_trace [OF s1] show ?thesis
    proof (elim disjE exE)
      assume "t1 = ?tv"
      with fv show ?thesis by simp
    next
      fix q assume "t1 = ?tv @ [GoogleSearch q 3]"
      with fv final_data_of_search [of w ?tv q 3] show ?thesis by simp
    qed
  qed
  show ?thesis
  proof (cases x1)
    case (Inl e)
    with av s1 have "t = t1" by (simp add: after_validation_def)
    with m np1 have False by (auto simp: filter_empty_conv)
    then show ?thesis ..
  next
    case (Inr r)
    obtain t2 x2 where s2: "final_merge w t1 v r = (t2, x2)"
      by (cases "final_merge w t1 v r")
    from final_merge_shape [OF s2] np1 have np2: "filter is_post t2 = []" by simp
    show ?thesis
    proof (cases x2)
      case (Inl e)
      with av s1 s2 Inr have "t = t2" by (simp add: after_validation_def)
      with m np2 have False by (auto simp: filter_empty_conv)
      then show ?thesis ..
    next
      case fd: (Inr fd)
      with s2 have s2': "final_merge w t1 v r = (t2, Inr fd)" by simp
      from final_merge_decoded [OF s2'] f1 have f2: "final_data_of w t2 = Some fd"
        by (auto simp: final_data_of_snoc)
      from av s1 s2 Inr fd have "finish w t2 i1 i2 fd = (t, res)"
        by (simp add: after_validation_def)
      from finish_sent [OF this m np2] f2 show ?thesis by blast
    qed
  qed
qed

lemma after_extraction_sent:
  assumes ae: "after_extraction w tr i1 i2 d = (t, res)"
    and m: "AppsScriptPost p \<in> set t" and np: "filter is_post tr = []"
  shows "\<exists>t0 fd. t = t0 @ [AppsScriptPost p] \<and> final_data_of w t0 = Some fd \<and>
           finalize fd = Inr (extractedData p)"
proof (cases "build_search_query w d")
  case (Inl e)
  with ae have "t = tr" by (simp add: after_extraction_def)
  with m np have False by (auto simp: filter_empty_conv)
  then show ?thesis ..
next
  case (Inr q)
  obtain t1 g where s1: "validation_search w tr q = (t1, g)"
    by (cases "validation_search w tr q")
  have np1: "filter is_post t1 = []"
    using validation_search_posts [of w tr q] s1 np by simp
  obtain t2 x2 where s2: "validation w t1 d g = (t2, x2)"
    by (cases "validation w t1 d g")
  from validation_shape [OF s2] np1 have np2: "filter is_post t2 = []" by simp
  show ?thesis
  proof (cases x2)
    case (Inl e)
    with ae Inr s1 s2 have "t = t2" by (simp add: after_extraction_def)
    with m np2 have False by (auto simp: filter_empty_conv)
    then show ?thesis ..
  next
    case v: (Inr v)
    with s2 have s2': "validation w t1 d g = (t2, Inr v)" by simp
    from validation_decoded [OF s2'] have t2: "t2 = t1 @ [ChatValidation d g]"
      and dec: "decoded_reply w t1 (ChatValidation d g) = Some v"
      by simp_all
    from ae Inr s1 s2 v t2 have "after_validation w (t1 @ [ChatValidation d g]) i1 i2 v = (t, res)"
      by (simp add: after_extraction_def)
    from after_validation_sent [OF this dec m np1] show ?thesis .
  qed
qed

lemma perform_ocr_sent:
  assumes po: "perform_ocr w req = (t, res)" and m: "AppsScriptPost p \<in> set t"
  shows "\<exists>t0 fd. t = t0 @ [AppsScriptPost p] \<and> final_data_of w t0 = Some fd \<and>
           finalize fd = Inr (extractedData p)"
proof -
  obtain t' x where pl: "pipeline w req = (t', x)" by (cases "pipeline w req")
  with po have tt: "t' = t" by (auto simp: perform_ocr_def split: sum.splits)
  show ?thesis
  proof (cases "normalize_image1 (base64Image1 req)")
    case (Inl e)
    with pl tt have "t = []" by (simp add: pipeline_def)
    with m show ?thesis by simp
  next
    case i1: (Inr i1)
    show ?thesis
    proof (cases "normalize_image2 (base64Image2 req)")
      case (Inl e)
      with pl tt i1 have "t = []" by (simp add: pipeline_def)
      with m show ?thesis by simp
    next
      case i2: (Inr i2)
      obtain t1 x1 where s1: "extraction w [] i1 i2 = (t1, x1)"
        by (cases "extraction w [] i1 i2")
      from extraction_shape [OF s1] have np1: "filter is_post t1 = []" by simp
      show ?thesis
      proof (cases x1)
        case (Inl e)
        with pl tt i1 i2 s1 have "t = t1" by (simp add: pipeline_def)
        with m np1 have False by (auto simp: filter_empty_conv)
        then show ?thesis ..
      next
        case d: (Inr d)
        with pl tt i1 i2 s1 have "after_extraction w t1 i1 i2 d = (t, x)"
          by (simp add: pipeline_def)
        from after_extraction_sent [OF this m np1] show ?thesis .
      qed
    qed
  qed
qed

lemma normalize_image1_between:
  assumes a: "CHR '','' \<notin> set a" and b: "CHR '','' \<notin> set b"
  shows "normalize_image1 (a @ '','' @ b @ '','' @ c) = Inr b \<and>
         normalize_image1 (a @ '','' @ b) = Inr b \<and>
         normalize_image1 b = Inr b"
proof (intro conjI)
  have "split_str comma (a @ '','' @ b @ '','' @ c) = a # b # split_str comma c"
    using a b by (simp add: comma_def split_str_single_first)
  then show "normalize_image1 (a @ '','' @ b @ '','' @ c) = Inr b"
    by (simp add: normalize_image1_def comma_def contains_single)
  have "split_str comma (a @ '','' @ b) = [a, b]"
    using a b by (simp add: comma_def split_str_single_first split_str_single_none)
  then show "normalize_image1 (a @ '','' @ b) = Inr b"
    by (simp add: normalize_image1_def comma_def contains_single)
  show "normalize_image1 b = Inr b"
    using b by (simp add: normalize_image1_def comma_def contains_single)
qed

lemma normalize_image2_Some: "normalize_image2 (Some s) = normalize_image1 s"
  by (simp add: normalize_image2_def normalize_image1_def comma_def)


text \<open>
  Claim C9. A run that reaches the submission makes it once, as its last call. The
  payload has the action \<open>save\<close>; the front image and the back image of the request,
  each cut down to what stands between its first and second comma, after its only comma,
  or to itself when it has no comma, the back image being the empty string when the
  request has none; and the record of this run: the finalisation of the decoded reply
  to the last validation or merge call made before the submission. A successful run
  builds its response from that same record.
\<close>

theorem submission_payload:
  assumes "perform_ocr w req = (tr, res)" and "AppsScriptPost p \<in> set tr"
  shows "\<exists>pre fd. tr = pre @ [AppsScriptPost p] \<and> filter is_post pre = [] \<and>
           action p = ''save'' \<and>
           normalize_image1 (base64Image1 req) = Inr (photo1Base64 p) \<and>
           normalize_image2 (base64Image2 req) = Inr (photo2Base64 p) \<and>
           (base64Image2 req = None \<longrightarrow> photo2Base64 p = []) \<and>
           (\<forall>a b c. CHR '','' \<notin> set a \<and> CHR '','' \<notin> set b \<and>
              (base64Image1 req = a @ '','' @ b @ '','' @ c \<or> base64Image1 req = a @ '','' @ b \<or>
               base64Image1 req = b) \<longrightarrow> photo1Base64 p = b) \<and>
           (\<forall>a b c. CHR '','' \<notin> set a \<and> CHR '','' \<notin> set b \<and>
              (base64Image2 req = Some (a @ '','' @ b @ '','' @ c) \<or>
               base64Image2 req = Some (a @ '','' @ b) \<or>
               base64Image2 req = Some b) \<longrightarrow> photo2Base64 p = b) \<and>
           final_data_of w pre = Some fd \<and>
           finalize fd = Inr (extractedData p) \<and>
           (\<forall>r. res = Inr r \<longrightarrow> OCRResponse_of w (extractedData p) = Inr r)"
proof -
  from perform_ocr_sent [OF assms] obtain t0 fd
    where t0: "tr = t0 @ [AppsScriptPost p]" and fd: "final_data_of w t0 = Some fd"
      and fin: "finalize fd = Inr (extractedData p)"
    by blast
  from perform_ocr_shape [OF assms(1)] show ?thesis
  proof (elim disjE exE conjE)
    assume "filter is_post tr = []"
    with assms(2) have False by (auto simp: filter_empty_conv)
    then show ?thesis ..
  next
    fix pre fd' d i1 i2
    let ?p = "\<lparr>action = ''save'', photo1Base64 = i1, photo2Base64 = i2, extractedData = d\<rparr>"
    assume n1: "normalize_image1 (base64Image1 req) = Inr i1"
      and n2: "normalize_image2 (base64Image2 req) = Inr i2"
      and np: "filter is_post pre = []"
      and tr: "tr = pre @ [AppsScriptPost ?p]"
      and res: "res = (case save_result_check (requests_post w pre (AppsScriptPost ?p)) of
                      Inl e \<Rightarrow> Inl (HTTPException 502 (SubmissionFailed e))
                    | Inr u \<Rightarrow>
                        (case OCRResponse_of w d of
                           Inl e \<Rightarrow> Inl (HTTPException 500 (ProcessingError e))
                         | Inr r \<Rightarrow> Inr r))"
    from t0 tr have pre: "t0 = pre" and p: "p = ?p" by simp_all
    have c1: "tr = pre @ [AppsScriptPost p]"
      using t0 pre by simp
    have c2: "action p = ''save''"
      using p by simp
    have c3: "normalize_image1 (base64Image1 req) = Inr (photo1Base64 p)"
      using n1 p by simp
    have c4: "normalize_image2 (base64Image2 req) = Inr (photo2Base64 p)"
      using n2 p by simp
    have c5: "base64Image2 req = None \<longrightarrow> photo2Base64 p = []"
      using c4 by (auto simp: normalize_image2_def)
    have c6: "\<forall>a b c. CHR '','' \<notin> set a \<and> CHR '','' \<notin> set b \<and>
              (base64Image1 req = a @ '','' @ b @ '','' @ c \<or> base64Image1 req = a @ '','' @ b \<or>
               base64Image1 req = b) \<longrightarrow> photo1Base64 p = b"
    proof (intro allI impI)
      fix a b c
      assume h: "CHR '','' \<notin> set a \<and> CHR '','' \<notin> set b \<and>
              (base64Image1 req = a @ '','' @ b @ '','' @ c \<or> base64Image1 req = a @ '','' @ b \<or>
               base64Image1 req = b)"
      then have "normalize_image1 (base64Image1 req) = Inr b"
        using normalize_image1_between [of a b c] by auto
      with c3 show "photo1Base64 p = b" by simp
    qed
    have c7: "\<forall>a b c. CHR '','' \<notin> set a \<and> CHR '','' \<notin> set b \<and>
              (base64Image2 req = Some (a @ '','' @ b @ '','' @ c) \<or>
               base64Image2 req = Some (a @ '','' @ b) \<or>
               base64Image2 req = Some b) \<longrightarrow> photo2Base64 p = b"
    proof (intro allI impI)
      fix a b c
      assume h: "CHR '','' \<notin> set a \<and> CHR '','' \<notin> set b \<and>
              (base64Image2 req = Some (a @ '','' @ b @ '','' @ c) \<or>
               base64Image2 req = Some (a @ '','' @ b) \<or>
               base64Image2 req = Some b)"
      then have "normalize_image2 (base64Image2 req) = Inr b"
        using normalize_image1_between [of a b c] by (auto simp: normalize_image2_Some)
      with c4 show "photo2Base64 p = b" by simp
    qed
    have c8: "final_data_of w pre = Some fd"
      using fd pre by simp
    have c9: "\<forall>r. res = Inr r \<longrightarrow> OCRResponse_of w (extractedData p) = Inr r"
      using res p by (auto split: sum.splits)
    show ?thesis
      by (intro exI [of _ pre] exI [of _ fd] conjI) (rule c1 np c2 c3 c4 c5 c6 c7 c8 fin c9)+
  qed
qed

lemma two_sided_run:
  "perform_ocr acme_world two_sided_request =
     (two_sided_calls @ [AppsScriptPost two_sided_payload], Inr acme_response)"
  by (simp add: run_defs example_defs call_defs two_sided_request_def two_sided_calls_def
      two_sided_payload_def Let_def)

theorem submission_payload_witness:
  "perform_ocr acme_world two_sided_request =
     (two_sided_calls @ [AppsScriptPost two_sided_payload], Inr acme_response) \<and>
   AppsScriptPost two_sided_payload \<in> set (two_sided_calls @ [AppsScriptPost two_sided_payload]) \<and>
   action two_sided_payload = ''save'' \<and>
   photo1Base64 two_sided_payload = ''AAAA'' \<and>
   photo2Base64 two_sided_payload = ''BBBB'' \<and>
   final_data_of acme_world two_sided_calls = Some (JObj acme_merged) \<and>
   finalize (JObj acme_merged) = Inr (extractedData two_sided_payload) \<and>
   OCRResponse_of acme_world (extractedData two_sided_payload) = Inr acme_response"
proof -
  have run: "perform_ocr acme_world two_sided_request =
      (two_sided_calls @ [AppsScriptPost two_sided_payload], Inr acme_response)"
    by (rule two_sided_run)
  have m: "AppsScriptPost two_sided_payload \<in>
      set (two_sided_calls @ [AppsScriptPost two_sided_payload])"
    by simp
  from submission_payload [OF run m] obtain pre fd
    where pre: "two_sided_calls @ [AppsScriptPost two_sided_payload] =
        pre @ [AppsScriptPost two_sided_payload]"
      and act: "action two_sided_payload = ''save''"
      and b1: "\<forall>a b c. CHR '','' \<notin> set a \<and> CHR '','' \<notin> set b \<and>
              (base64Image1 two_sided_request = a @ '','' @ b @ '','' @ c \<or>
               base64Image1 two_sided_request = a @ '','' @ b \<or>
               base64Image1 two_sided_request = b) \<longrightarrow> photo1Base64 two_sided_payload = b"
      and b2: "\<forall>a b c. CHR '','' \<notin> set a \<and> CHR '','' \<notin> set b \<and>
              (base64Image2 two_sided_request = Some (a @ '','' @ b @ '','' @ c) \<or>
               base64Image2 two_sided_request = Some (a @ '','' @ b) \<or>
               base64Image2 two_sided_request = Some b) \<longrightarrow> photo2Base64 two_sided_payload = b"
      and fd: "final_data_of acme_world pre = Some fd"
      and fin: "finalize fd = Inr (extractedData two_sided_payload)"
      and resp: "\<forall>r. Inr acme_response = (Inr r :: exn + OCRResponse) \<longrightarrow>
          OCRResponse_of acme_world (extractedData two_sided_payload) = Inr r"
    by blast
  have i1: "photo1Base64 two_sided_payload = ''AAAA''"
    using b1 [rule_format, of "''data:image/jpeg;base64''" "''AAAA''" "[]"]
    by (simp add: two_sided_request_def)
  have i2: "photo2Base64 two_sided_payload = ''BBBB''"
    using b2 [rule_format, of "''data:image/jpeg;base64''" "''BBBB''" "[]"]
    by (simp add: two_sided_request_def)
  from pre have "pre = two_sided_calls" by simp
  with fd have fd': "final_data_of acme_world two_sided_calls = Some fd" by simp
  have ev: "final_data_of acme_world two_sided_calls = Some (JObj acme_merged)"
    by (simp add: final_data_of_def decoded_reply_def two_sided_calls_def loads_def
        acme_world_def world_of_def example_loads_def merged_text_def validated_text_def
        rejected_text_def ocr_text_def)
  with fd' have "fd = JObj acme_merged" by simp
  with fin have fin': "finalize (JObj acme_merged) = Inr (extractedData two_sided_payload)"
    by simp
  from resp have r: "OCRResponse_of acme_world (extractedData two_sided_payload) = Inr acme_response"
    by simp
  show ?thesis
    by (intro conjI) (rule run m act i1 i2 ev fin' r)+
qed

end
